theory Spec2Isabelle
  imports Main
begin

section \<open>JavaScript strings\<close>

text \<open>
  A JavaScript string is a sequence of UTF-16 code units. A code unit is modelled as a
  natural number below \<open>0x10000\<close>; no arithmetic of the program can overflow one (they
  are only compared, and a surrogate pair is decoded into a code point).
  \<open>str\<close> writes an ASCII literal of the source as code units.
\<close>

type_synonym jsstring = "nat list"

definition str :: "string \<Rightarrow> jsstring" where
  "str s = map of_char s"

definition isLead :: "nat \<Rightarrow> bool" where
  "isLead c = (0xD800 \<le> c \<and> c \<le> 0xDBFF)"

definition isTrail :: "nat \<Rightarrow> bool" where
  "isTrail c = (0xDC00 \<le> c \<and> c \<le> 0xDFFF)"

definition codePoint :: "nat \<Rightarrow> nat \<Rightarrow> nat" where
  "codePoint hi lo = (hi - 0xD800) * 0x400 + (lo - 0xDC00) + 0x10000"

text \<open>ECMAScript LineTerminator and WhiteSpace (the set of \<open>\s\<close> and of \<open>trim\<close>).\<close>

definition isLineTerminator :: "nat \<Rightarrow> bool" where
  "isLineTerminator c = (c = 0x0A \<or> c = 0x0D \<or> c = 0x2028 \<or> c = 0x2029)"

definition isWhiteSpace :: "nat \<Rightarrow> bool" where
  "isWhiteSpace c =
     (c = 0x09 \<or> c = 0x0B \<or> c = 0x0C \<or> c = 0x20 \<or> c = 0xA0 \<or> c = 0x1680 \<or>
      (0x2000 \<le> c \<and> c \<le> 0x200A) \<or> c = 0x202F \<or> c = 0x205F \<or> c = 0x3000 \<or>
      c = 0xFEFF \<or> isLineTerminator c)"

definition trim :: "jsstring \<Rightarrow> jsstring" where
  "trim s = rev (dropWhile isWhiteSpace (rev (dropWhile isWhiteSpace s)))"

fun startsWith :: "jsstring \<Rightarrow> jsstring \<Rightarrow> bool" where
  "startsWith s [] = True"
| "startsWith [] (p # ps) = False"
| "startsWith (c # cs) (p # ps) = (c = p \<and> startsWith cs ps)"

fun includesStr :: "jsstring \<Rightarrow> jsstring \<Rightarrow> bool" where
  "includesStr [] sub = (sub = [])"
| "includesStr (c # cs) sub = (startsWith (c # cs) sub \<or> includesStr cs sub)"

section \<open>Regular expressions\<close>

text \<open>
  The regular expressions of the source are kept as syntax trees and run by a
  backtracking matcher with the priorities of ECMAScript: alternatives left to right,
  greedy quantifiers longest first, lazy ones shortest first. Only the constructs the
  source uses are present; every quantified item of the source is a single character
  matcher or an optional group.
\<close>

datatype citem = CChar nat | CRange nat nat | CSpace

datatype atom = Chr nat | Cls "citem list" | WS | Dot

datatype re =
    A atom
  | Star atom
  | StarLazy atom
  | Plus atom
  | PlusLazy atom
  | Rep nat atom
  | Opt "re list"
  | Alt "re list list"
  | Grp "re list"
  | GrpEnd
  | Bol
  | Eol

record flags =
  ignoreCase :: bool
  multiline :: bool
  unicode :: bool

definition lit :: "string \<Rightarrow> re list" where
  "lit s = map (\<lambda>c. A (Chr (of_char c))) s"

text \<open>
  Canonicalize of the ECMAScript specification, for a regular expression without the
  \<open>u\<close> flag: the upper-case mapping, except that a character outside ASCII is never
  mapped into ASCII. Every literal and class member of the source's \<open>i\<close> patterns is an
  ASCII character or a caseless one (brackets, the full-width colon, white space), so
  whether an input character equals one of them after canonicalization is decided by
  the ASCII mapping alone, which is what is written here.
\<close>

definition canonicalize :: "flags \<Rightarrow> nat \<Rightarrow> nat" where
  "canonicalize f c = (if ignoreCase f \<and> 97 \<le> c \<and> c \<le> 122 then c - 32 else c)"

fun citemMatches :: "flags \<Rightarrow> citem \<Rightarrow> nat \<Rightarrow> bool" where
  "citemMatches f (CChar a) c = (canonicalize f a = canonicalize f c)"
| "citemMatches f (CRange lo hi) c =
     (if ignoreCase f then list_ex (\<lambda>a. canonicalize f a = canonicalize f c) [lo..<Suc hi]
      else lo \<le> c \<and> c \<le> hi)"
| "citemMatches f CSpace c = isWhiteSpace c"

fun atomMatches :: "flags \<Rightarrow> atom \<Rightarrow> nat \<Rightarrow> bool" where
  "atomMatches f (Chr a) c = (canonicalize f a = canonicalize f c)"
| "atomMatches f (Cls items) c = list_ex (\<lambda>i. citemMatches f i c) items"
| "atomMatches f WS c = isWhiteSpace c"
| "atomMatches f Dot c = (\<not> isLineTerminator c)"

text \<open>
  The character at the head of the input: one code unit, or with the \<open>u\<close> flag the
  code point of a well-formed surrogate pair. Returns the character, the last code
  unit consumed and the rest of the input.
\<close>

fun nextChar :: "bool \<Rightarrow> jsstring \<Rightarrow> (nat \<times> nat \<times> jsstring) option" where
  "nextChar u [] = None"
| "nextChar u [c] = Some (c, c, [])"
| "nextChar u (c # d # ds) =
     (if u \<and> isLead c \<and> isTrail d then Some (codePoint c d, d, ds) else Some (c, c, d # ds))"

definition step :: "flags \<Rightarrow> atom \<Rightarrow> jsstring \<Rightarrow> (nat \<times> jsstring) option" where
  "step f a rest =
     (case nextChar (unicode f) rest of
        None \<Rightarrow> None
      | Some (ch, l, rest') \<Rightarrow> if atomMatches f a ch then Some (l, rest') else None)"

fun reSize :: "re \<Rightarrow> nat" where
  "reSize (A a) = 1"
| "reSize (Star a) = 1"
| "reSize (StarLazy a) = 1"
| "reSize (Plus a) = 2"
| "reSize (PlusLazy a) = 2"
| "reSize (Rep n a) = Suc n"
| "reSize (Opt rs) = Suc (sum_list (map reSize rs))"
| "reSize (Alt rss) = Suc (sum_list (map (\<lambda>rs. Suc (sum_list (map reSize rs))) rss))"
| "reSize (Grp rs) = Suc (Suc (sum_list (map reSize rs)))"
| "reSize GrpEnd = 1"
| "reSize Bol = 1"
| "reSize Eol = 1"

lemma nextChar_shorter: "nextChar u rest = Some (ch, l, rest') \<Longrightarrow> length rest' < length rest"
  by (induction u rest rule: nextChar.induct) (auto split: if_splits)

lemma step_shorter: "step f a rest = Some (l, rest') \<Longrightarrow> length rest' < length rest"
  by (auto simp: step_def split: option.splits if_splits dest: nextChar_shorter)

text \<open>
  \<open>mt f k prev rest opn cap\<close> runs the items \<open>k\<close> on the input \<open>rest\<close>; \<open>prev\<close> is the
  code unit before it (\<open>None\<close> at the start of the string), \<open>opn\<close> the input where the
  capture group was entered and \<open>cap\<close> the text of capture group 1. It returns the input
  after the match and the capture.
\<close>

function (sequential) mt ::
  "flags \<Rightarrow> re list \<Rightarrow> nat option \<Rightarrow> jsstring \<Rightarrow> jsstring \<Rightarrow> jsstring option
     \<Rightarrow> (jsstring \<times> jsstring option) option" where
  "mt f [] prev rest opn cap = Some (rest, cap)"
| "mt f (A a # k) prev rest opn cap =
     (case step f a rest of
        None \<Rightarrow> None
      | Some (l, rest') \<Rightarrow> mt f k (Some l) rest' opn cap)"
| "mt f (Star a # k) prev rest opn cap =
     (case step f a rest of
        None \<Rightarrow> mt f k prev rest opn cap
      | Some (l, rest') \<Rightarrow>
          (case mt f (Star a # k) (Some l) rest' opn cap of
             Some r \<Rightarrow> Some r
           | None \<Rightarrow> mt f k prev rest opn cap))"
| "mt f (StarLazy a # k) prev rest opn cap =
     (case mt f k prev rest opn cap of
        Some r \<Rightarrow> Some r
      | None \<Rightarrow>
          (case step f a rest of
             None \<Rightarrow> None
           | Some (l, rest') \<Rightarrow> mt f (StarLazy a # k) (Some l) rest' opn cap))"
| "mt f (Plus a # k) prev rest opn cap =
     (case step f a rest of
        None \<Rightarrow> None
      | Some (l, rest') \<Rightarrow> mt f (Star a # k) (Some l) rest' opn cap)"
| "mt f (PlusLazy a # k) prev rest opn cap =
     (case step f a rest of
        None \<Rightarrow> None
      | Some (l, rest') \<Rightarrow> mt f (StarLazy a # k) (Some l) rest' opn cap)"
| "mt f (Rep 0 a # k) prev rest opn cap = mt f k prev rest opn cap"
| "mt f (Rep (Suc n) a # k) prev rest opn cap =
     (case step f a rest of
        None \<Rightarrow> None
      | Some (l, rest') \<Rightarrow> mt f (Rep n a # k) (Some l) rest' opn cap)"
| "mt f (Opt rs # k) prev rest opn cap =
     (case mt f (rs @ k) prev rest opn cap of
        Some r \<Rightarrow> Some r
      | None \<Rightarrow> mt f k prev rest opn cap)"
| "mt f (Alt [] # k) prev rest opn cap = None"
| "mt f (Alt (rs # rss) # k) prev rest opn cap =
     (case mt f (rs @ k) prev rest opn cap of
        Some r \<Rightarrow> Some r
      | None \<Rightarrow> mt f (Alt rss # k) prev rest opn cap)"
| "mt f (Grp rs # k) prev rest opn cap = mt f (rs @ GrpEnd # k) prev rest rest cap"
| "mt f (GrpEnd # k) prev rest opn cap =
     mt f k prev rest opn (Some (take (length opn - length rest) opn))"
| "mt f (Bol # k) prev rest opn cap =
     (if (case prev of None \<Rightarrow> True | Some p \<Rightarrow> multiline f \<and> isLineTerminator p)
      then mt f k prev rest opn cap else None)"
| "mt f (Eol # k) prev rest opn cap =
     (if (case rest of [] \<Rightarrow> True | c # cs \<Rightarrow> multiline f \<and> isLineTerminator c)
      then mt f k prev rest opn cap else None)"
  by pat_completeness auto
termination
  by (relation "measures [\<lambda>(f, k, prev, rest, opn, cap). length rest,
                          \<lambda>(f, k, prev, rest, opn, cap). sum_list (map reSize k)]")
     (auto dest: step_shorter)

text \<open>
  \<open>search\<close> is the loop of RegExpBuiltinExec for a regular expression without the \<open>g\<close>
  and \<open>y\<close> flags: the match is tried at index 0, then at each later index (advancing by
  a code point with the \<open>u\<close> flag), up to and including the end of the string. The
  result is the text before the match, capture group 1 and the text after the match.
\<close>

fun search ::
  "flags \<Rightarrow> re list \<Rightarrow> jsstring \<Rightarrow> nat option \<Rightarrow> jsstring
     \<Rightarrow> (jsstring \<times> jsstring option \<times> jsstring) option" where
  "search f r acc prev [] =
     (case mt f r prev [] [] None of
        Some (rest', cap) \<Rightarrow> Some (rev acc, cap, rest')
      | None \<Rightarrow> None)"
| "search f r acc prev [c] =
     (case mt f r prev [c] [] None of
        Some (rest', cap) \<Rightarrow> Some (rev acc, cap, rest')
      | None \<Rightarrow> search f r (c # acc) (Some c) [])"
| "search f r acc prev (c # d # ds) =
     (case mt f r prev (c # d # ds) [] None of
        Some (rest', cap) \<Rightarrow> Some (rev acc, cap, rest')
      | None \<Rightarrow>
          if unicode f \<and> isLead c \<and> isTrail d then search f r (d # c # acc) (Some d) ds
          else search f r (c # acc) (Some c) (d # ds))"

text \<open>\<open>text.match(re)\<close>: \<open>None\<close> is JavaScript's \<open>null\<close>.\<close>

definition matchRe ::
  "flags \<times> re list \<Rightarrow> jsstring \<Rightarrow> (jsstring \<times> jsstring option \<times> jsstring) option" where
  "matchRe p s = search (fst p) (snd p) [] None s"

text \<open>\<open>s.replace(re, '')\<close> for a regular expression without the \<open>g\<close> flag.\<close>

definition replaceFirst :: "flags \<times> re list \<Rightarrow> jsstring \<Rightarrow> jsstring" where
  "replaceFirst p s =
     (case matchRe p s of
        None \<Rightarrow> s
      | Some (before, cap, after) \<Rightarrow> before @ after)"

text \<open>
  \<open>s.replace(re, '')\<close> for a regular expression with the \<open>g\<close> flag: every match is
  dropped, the search going on after it; after an empty match, and where there is no
  match, one character is kept and the search goes on behind it.
\<close>

function replaceGlobal :: "flags \<Rightarrow> re list \<Rightarrow> nat option \<Rightarrow> jsstring \<Rightarrow> jsstring" where
  "replaceGlobal f r prev [] = []"
| "replaceGlobal f r prev (c # cs) =
     (case mt f r prev (c # cs) [] None of
        Some (rest', cap) \<Rightarrow>
          if length rest' < length (c # cs)
          then replaceGlobal f r (Some ((c # cs) ! (length cs - length rest'))) rest'
          else (case cs of
                  d # ds \<Rightarrow>
                    if unicode f \<and> isLead c \<and> isTrail d
                    then c # d # replaceGlobal f r (Some d) ds
                    else c # replaceGlobal f r (Some c) cs
                | [] \<Rightarrow> c # replaceGlobal f r (Some c) cs)
      | None \<Rightarrow>
          (case cs of
             d # ds \<Rightarrow>
               if unicode f \<and> isLead c \<and> isTrail d
               then c # d # replaceGlobal f r (Some d) ds
               else c # replaceGlobal f r (Some c) cs
           | [] \<Rightarrow> c # replaceGlobal f r (Some c) cs))"
  by pat_completeness auto
termination
  by (relation "measure (\<lambda>(f, r, prev, s). length s)") auto

section \<open>Constants of the content script\<close>

definition noFlags :: flags where
  "noFlags = \<lparr>ignoreCase = False, multiline = False, unicode = False\<rparr>"

definition flagI :: flags where
  "flagI = \<lparr>ignoreCase = True, multiline = False, unicode = False\<rparr>"

definition flagIM :: flags where
  "flagIM = \<lparr>ignoreCase = True, multiline = True, unicode = False\<rparr>"

definition flagU :: flags where
  "flagU = \<lparr>ignoreCase = False, multiline = False, unicode = True\<rparr>"

text \<open>The class of the ASCII colon and the full-width colon U+FF1A, written \<open>[colon]\<close> below.\<close>

definition colon :: atom where
  "colon = Cls [CChar 0x3A, CChar 0xFF1A]"

text \<open>
  The classes of the opening brackets U+300E, U+300C, U+3010, \<open>(\<close>, U+FF08 and of the closing
  brackets U+300F, U+300D, U+3011, \<open>)\<close>, U+FF09.
\<close>

definition openBracket :: atom where
  "openBracket = Cls [CChar 0x300E, CChar 0x300C, CChar 0x3010, CChar 0x28, CChar 0xFF08]"

definition closeBracket :: atom where
  "closeBracket = Cls [CChar 0x300F, CChar 0x300D, CChar 0x3011, CChar 0x29, CChar 0xFF09]"

text \<open>\<open>(.+?)\<close>\<close>

definition capture :: re where
  "capture = Grp [PlusLazy Dot]"

text \<open>\<open>(?:\s*$|\s*#|\n|<)\<close>\<close>

definition terminator :: re where
  "terminator = Alt [[Star WS, Eol], [Star WS, A (Chr 0x23)], [A (Chr 0x0A)], [A (Chr 0x3C)]]"

text \<open>\<open>(?:\s*$|\s*#|\r?\n|\r|<)\<close>\<close>

definition terminatorCR :: re where
  "terminatorCR =
     Alt [[Star WS, Eol], [Star WS, A (Chr 0x23)], [Opt [A (Chr 0x0D)], A (Chr 0x0A)],
          [A (Chr 0x0D)], [A (Chr 0x3C)]]"

text \<open>
  The katakana word for world, U+30EF U+30FC U+30EB U+30C9, and the kanji for name,
  U+540D.
\<close>

definition katakanaWorld :: "re list" where
  "katakanaWorld = [A (Chr 0x30EF), A (Chr 0x30FC), A (Chr 0x30EB), A (Chr 0x30C9)]"

definition kanjiName :: re where
  "kanjiName = A (Chr 0x540D)"

text \<open>
  The globe emoji of the third pattern, as code points (the pattern has the \<open>u\<close> flag):
  U+1F310, U+1F30D, U+1F30E, U+1F30F, and U+1F5FA followed by the variation selector
  U+FE0F.
\<close>

definition globe :: re where
  "globe = Alt [[A (Chr 0x1F310)], [A (Chr 0x1F30D)], [A (Chr 0x1F30E)], [A (Chr 0x1F30F)],
                [A (Chr 0x1F5FA), A (Chr 0xFE0F)]]"

text \<open>
  WORLD_PATTERNS, in the order of the source:
  \<^enum> \<open>/World\s*[colon]\s*(.+?)(?:\s*$|\s*#|\n|<)/i\<close>
  \<^enum> \<open>/World\s*[openBracket](.+?)[closeBracket]/i\<close>
  \<^enum> \<open>/(?:globe)\s*(.+?)(?:\s*$|\s*#|\r?\n|\r|<)/u\<close>
  \<^enum> \<open>/katakanaWorld(?:kanjiName)?\s*[colon]\s*(.+?)(?:\s*$|\s*#|\n|<)/\<close>
  \<^enum> \<open>/katakanaWorld(?:kanjiName)?[\s U+3000]+(.+?)(?:\s*$|\s*#|\n|<)/\<close>
  \<^enum> \<open>/World\s*name\s*[colon]\s*(.+?)(?:\s*$|\s*#|\n|<)/i\<close>
  \<^enum> \<open>/^(.+?)\n+By\s/im\<close>
  \<^enum> \<open>/^(.+?)\n+Author\s*[colon]?\s/im\<close>
\<close>

definition WORLD_PATTERNS :: "(flags \<times> re list) list" where
  "WORLD_PATTERNS =
     [(flagI, lit ''World'' @ [Star WS, A colon, Star WS, capture, terminator]),
      (flagI, lit ''World'' @ [Star WS, A openBracket, capture, A closeBracket]),
      (flagU, [globe, Star WS, capture, terminatorCR]),
      (noFlags, katakanaWorld @ [Opt [kanjiName], Star WS, A colon, Star WS, capture, terminator]),
      (noFlags, katakanaWorld @ [Opt [kanjiName], Plus (Cls [CSpace, CChar 0x3000]), capture,
                                 terminator]),
      (flagI, lit ''World'' @ [Star WS] @ lit ''name'' @
              [Star WS, A colon, Star WS, capture, terminator]),
      (flagIM, [Bol, capture, Plus (Chr 0x0A)] @ lit ''By'' @ [A WS]),
      (flagIM, [Bol, capture, Plus (Chr 0x0A)] @ lit ''Author'' @
               [Star WS, Opt [A colon], A WS])]"

text \<open>The regular expressions of the cleanup, lines 154 to 161 of the content script.\<close>

definition reHashtagSuffix :: "flags \<times> re list" where
  \<comment> \<open>\<open>/\s*#.*$/\<close>\<close>
  "reHashtagSuffix = (noFlags, [Star WS, A (Chr 0x23), Star Dot, Eol])"

definition reTrailingBrackets :: "flags \<times> re list" where
  \<comment> \<open>\<open>/[closeBracket]+$/\<close>\<close>
  "reTrailingBrackets = (noFlags, [Plus closeBracket, Eol])"

definition reEmoji :: "flags \<times> re list" where
  \<comment> \<open>\<open>/[\u{1F300}-\u{1F9FF}]/gu\<close>\<close>
  "reEmoji = (flagU, [A (Cls [CRange 0x1F300 0x1F9FF])])"

definition reSurrogate :: "flags \<times> re list" where
  \<comment> \<open>\<open>/[\uD800-\uDFFF]/g\<close>\<close>
  "reSurrogate = (noFlags, [A (Cls [CRange 0xD800 0xDFFF])])"

section \<open>World Reference Extractor\<close>

text \<open>The body of the loop of \<open>extractWorldName\<close> after \<open>match[1]\<close> was found.\<close>

definition cleanup :: "jsstring \<Rightarrow> jsstring" where
  "cleanup m =
     (let worldName = trim m;
          worldName = trim (replaceFirst reHashtagSuffix worldName);
          worldName = trim (replaceFirst reTrailingBrackets worldName);
          worldName = trim (replaceGlobal (fst reEmoji) (snd reEmoji) None worldName);
          worldName = trim (replaceGlobal (fst reSurrogate) (snd reSurrogate) None worldName)
      in worldName)"

text \<open>
  One turn of the loop: the name the pattern yields, or \<open>None\<close> where the loop goes on
  (no match, an empty capture, or a name that is empty after the cleanup).
\<close>

definition tryPattern :: "flags \<times> re list \<Rightarrow> jsstring \<Rightarrow> jsstring option" where
  "tryPattern p text =
     (case matchRe p text of
        Some (before, Some m, after) \<Rightarrow>
          if m \<noteq> [] \<and> cleanup m \<noteq> [] then Some (cleanup m) else None
      | _ \<Rightarrow> None)"

fun extractLoop :: "(flags \<times> re list) list \<Rightarrow> jsstring \<Rightarrow> jsstring option" where
  "extractLoop [] text = None"
| "extractLoop (p # ps) text =
     (case tryPattern p text of
        Some worldName \<Rightarrow> Some worldName
      | None \<Rightarrow> extractLoop ps text)"

definition extractWorldName :: "jsstring \<Rightarrow> jsstring option" where
  "extractWorldName text = (if text = [] then None else extractLoop WORLD_PATTERNS text)"

section \<open>Link Resolver\<close>

text \<open>\<open>(wrld_[a-f0-9-]{36})\<close>\<close>

definition worldIdGroup :: re where
  "worldIdGroup = Grp (lit ''wrld_'' @ [Rep 36 (Cls [CRange 0x61 0x66, CRange 0x30 0x39, CChar 0x2D])])"

definition rePathForm :: "flags \<times> re list" where
  \<comment> \<open>\<open>/vrchat\.com\/home\/world\/(wrld_[a-f0-9-]{36})/i\<close>\<close>
  "rePathForm = (flagI, lit ''vrchat.com/home/world/'' @ [worldIdGroup])"

definition reQueryForm :: "flags \<times> re list" where
  \<comment> \<open>\<open>/[?&]worldId=(wrld_[a-f0-9-]{36})/i\<close>\<close>
  "reQueryForm = (flagI, [A (Cls [CChar 0x3F, CChar 0x26])] @ lit ''worldId='' @ [worldIdGroup])"

definition extractWorldIdFromUrl :: "jsstring \<Rightarrow> jsstring option" where
  "extractWorldIdFromUrl url =
     (if url = [] then None
      else (case matchRe rePathForm url of
              Some (before, m, after) \<Rightarrow> m
            | None \<Rightarrow>
                (case matchRe reQueryForm url of
                   Some (before, m, after) \<Rightarrow> m
                 | None \<Rightarrow> None)))"

section \<open>The document\<close>

text \<open>
  A DOM node is a text node, an element or a node of another kind (a comment). An
  element has its tag name as the DOM reports it (upper case in an HTML document), its
  attributes in the order they were set, its click listeners and its child nodes. A
  click listener of the content script is a closure over the world name it was created
  with: \<open>OpenWorldClick\<close> is the listener of \<open>createLinkButton\<close>, \<open>SearchClick\<close> the
  one of \<open>createSearchButton\<close>. The document is the list of its child nodes.
\<close>

datatype listener = OpenWorldClick jsstring | SearchClick jsstring

datatype node =
    TextNode jsstring
  | Element jsstring "(jsstring \<times> jsstring) list" "listener list" "node list"
  | Comment jsstring

type_synonym document = "node list"

fun isElement :: "node \<Rightarrow> bool" where
  "isElement (Element tg at ls ch) = True"
| "isElement n = False"

fun tagName :: "node \<Rightarrow> jsstring" where
  "tagName (Element tg at ls ch) = tg"
| "tagName n = []"

fun attributes :: "node \<Rightarrow> (jsstring \<times> jsstring) list" where
  "attributes (Element tg at ls ch) = at"
| "attributes n = []"

fun listeners :: "node \<Rightarrow> listener list" where
  "listeners (Element tg at ls ch) = ls"
| "listeners n = []"

fun childNodes :: "node \<Rightarrow> node list" where
  "childNodes (Element tg at ls ch) = ch"
| "childNodes n = []"

definition getAttribute :: "node \<Rightarrow> jsstring \<Rightarrow> jsstring option" where
  "getAttribute n name = map_of (attributes n) name"

definition hasAttribute :: "node \<Rightarrow> jsstring \<Rightarrow> bool" where
  "hasAttribute n name = (getAttribute n name \<noteq> None)"

text \<open>A reflected string property (\<open>alt\<close>, \<open>title\<close>, \<open>href\<close>): empty where the attribute is absent.\<close>

definition attrProp :: "node \<Rightarrow> jsstring \<Rightarrow> jsstring" where
  "attrProp n name = (case getAttribute n name of None \<Rightarrow> [] | Some v \<Rightarrow> v)"

fun setAttr :: "jsstring \<Rightarrow> jsstring \<Rightarrow> (jsstring \<times> jsstring) list \<Rightarrow> (jsstring \<times> jsstring) list" where
  "setAttr name v [] = [(name, v)]"
| "setAttr name v ((k, w) # at) = (if k = name then (k, v) # at else (k, w) # setAttr name v at)"

fun setAttribute :: "node \<Rightarrow> jsstring \<Rightarrow> jsstring \<Rightarrow> node" where
  "setAttribute (Element tg at ls ch) name v = Element tg (setAttr name v at) ls ch"
| "setAttribute n name v = n"

fun removeAttribute :: "node \<Rightarrow> jsstring \<Rightarrow> node" where
  "removeAttribute (Element tg at ls ch) name = Element tg (filter (\<lambda>(k, w). k \<noteq> name) at) ls ch"
| "removeAttribute n name = n"

text \<open>The descendants of a node and the nodes of a forest, in document order.\<close>

fun descendants :: "node \<Rightarrow> node list" where
  "descendants (Element tg at ls ch) = concat (map (\<lambda>c. c # descendants c) ch)"
| "descendants n = []"

definition nodesOf :: "node list \<Rightarrow> node list" where
  "nodesOf ns = concat (map (\<lambda>c. c # descendants c) ns)"

text \<open>
  \<open>element.textContent\<close>: the text of the text nodes below the element, in document
  order; comments add nothing to it.
\<close>

fun textContent :: "node \<Rightarrow> jsstring" where
  "textContent (TextNode t) = t"
| "textContent (Element tg at ls ch) = concat (map textContent ch)"
| "textContent (Comment t) = []"

text \<open>The tokens of a class attribute, separated by ASCII white space.\<close>

definition isAsciiSpace :: "nat \<Rightarrow> bool" where
  "isAsciiSpace c = (c = 0x09 \<or> c = 0x0A \<or> c = 0x0C \<or> c = 0x0D \<or> c = 0x20)"

fun tokens :: "jsstring \<Rightarrow> jsstring \<Rightarrow> jsstring list" where
  "tokens cur [] = (if cur = [] then [] else [rev cur])"
| "tokens cur (c # cs) =
     (if isAsciiSpace c then (if cur = [] then tokens [] cs else rev cur # tokens [] cs)
      else tokens (c # cur) cs)"

definition hasClass :: "jsstring \<Rightarrow> node \<Rightarrow> bool" where
  "hasClass cls n = (isElement n \<and> cls \<in> set (tokens [] (attrProp n (str ''class''))))"

definition attrIs :: "jsstring \<Rightarrow> jsstring \<Rightarrow> node \<Rightarrow> bool" where
  "attrIs name v n = (isElement n \<and> getAttribute n name = Some v)"

text \<open>\<open>element.querySelector\<close> and \<open>element.querySelectorAll\<close>, the selector as a predicate.\<close>

definition querySelectorAll :: "(node \<Rightarrow> bool) \<Rightarrow> node \<Rightarrow> node list" where
  "querySelectorAll sel n = filter sel (descendants n)"

definition querySelector :: "(node \<Rightarrow> bool) \<Rightarrow> node \<Rightarrow> node option" where
  "querySelector sel n = find sel (descendants n)"

text \<open>
  \<open>actionBar.parentNode.insertBefore(container, actionBar)\<close> where \<open>actionBar\<close> is the
  first node below the element that matches the selector: the new node is put before
  it among the children of its parent. \<open>None\<close> where no node matches.
\<close>

fun insertBeforeFirst :: "(node \<Rightarrow> bool) \<Rightarrow> node \<Rightarrow> node list \<Rightarrow> node list option" where
  "insertBeforeFirst sel new [] = None"
| "insertBeforeFirst sel new (Element tg at ls ch # ns) =
     (if sel (Element tg at ls ch) then Some (new # Element tg at ls ch # ns)
      else (case insertBeforeFirst sel new ch of
              Some ch' \<Rightarrow> Some (Element tg at ls ch' # ns)
            | None \<Rightarrow>
                (case insertBeforeFirst sel new ns of
                   Some ns' \<Rightarrow> Some (Element tg at ls ch # ns')
                 | None \<Rightarrow> None)))"
| "insertBeforeFirst sel new (n # ns) =
     (if sel n then Some (new # n # ns)
      else (case insertBeforeFirst sel new ns of
              Some ns' \<Rightarrow> Some (n # ns')
            | None \<Rightarrow> None))"

fun removeMatching :: "(node \<Rightarrow> bool) \<Rightarrow> node list \<Rightarrow> node list" where
  "removeMatching sel [] = []"
| "removeMatching sel (Element tg at ls ch # ns) =
     (if sel (Element tg at ls ch) then removeMatching sel ns
      else Element tg at ls (removeMatching sel ch) # removeMatching sel ns)"
| "removeMatching sel (n # ns) = (if sel n then removeMatching sel ns else n # removeMatching sel ns)"

fun removeAttributeAll :: "jsstring \<Rightarrow> node list \<Rightarrow> node list" where
  "removeAttributeAll name [] = []"
| "removeAttributeAll name (Element tg at ls ch # ns) =
     Element tg (filter (\<lambda>(k, w). k \<noteq> name) at) ls (removeAttributeAll name ch)
       # removeAttributeAll name ns"
| "removeAttributeAll name (n # ns) = n # removeAttributeAll name ns"

definition createElement :: "jsstring \<Rightarrow> node" where
  "createElement tg = Element tg [] [] []"

fun setTextContent :: "node \<Rightarrow> jsstring \<Rightarrow> node" where
  "setTextContent (Element tg at ls ch) t = Element tg at ls (if t = [] then [] else [TextNode t])"
| "setTextContent n t = n"

fun addClickListener :: "node \<Rightarrow> listener \<Rightarrow> node" where
  "addClickListener (Element tg at ls ch) l = Element tg at (ls @ [l]) ch"
| "addClickListener n l = n"

fun appendChild :: "node \<Rightarrow> node \<Rightarrow> node" where
  "appendChild (Element tg at ls ch) c = Element tg at ls (ch @ [c])"
| "appendChild n c = n"

section \<open>Text Normalizer\<close>

fun traverse :: "node \<Rightarrow> jsstring" where
  "traverse (TextNode t) = t"
| "traverse (Element tg at ls ch) =
     (if tg = str ''IMG'' \<and> attrProp (Element tg at ls ch) (str ''alt'') \<noteq> []
      then attrProp (Element tg at ls ch) (str ''alt'') else [])
     @ concat (map traverse ch)"
| "traverse (Comment t) = []"

definition getTextWithEmoji :: "node option \<Rightarrow> jsstring" where
  "getTextWithEmoji element = (case element of None \<Rightarrow> [] | Some n \<Rightarrow> traverse n)"

section \<open>Controls\<close>

definition PROCESSED_ATTR :: jsstring where
  "PROCESSED_ATTR = str ''data-vrchat-world-linker-processed''"

text \<open>\<open>#vrchat_world\<close> followed by U+7D39 U+4ECB.\<close>

definition TARGET_HASHTAG :: jsstring where
  "TARGET_HASHTAG = str ''#vrchat_world'' @ [0x7D39, 0x4ECB]"

definition BUTTON_TEXT_DEFAULT :: jsstring where
  "BUTTON_TEXT_DEFAULT = [0xD83D, 0xDD17, 0x20, 0x30EF, 0x30FC, 0x30EB, 0x30C9, 0x3092, 0x958B, 0x304F]"

definition BUTTON_TEXT_SEARCH_ONLY :: jsstring where
  "BUTTON_TEXT_SEARCH_ONLY =
     [0xD83D, 0xDD0D, 0x20, 0x30EF, 0x30FC, 0x30EB, 0x30C9, 0x540D, 0x3067, 0x691C, 0x7D22]"

definition btnClass :: jsstring where
  "btnClass = str ''vrchat-world-link-btn''"

definition containerClass :: jsstring where
  "containerClass = str ''vrchat-world-link-container''"

definition isTweet :: "node \<Rightarrow> bool" where
  \<comment> \<open>SELECTORS.TWEET, \<open>[data-testid="tweet"]\<close>\<close>
  "isTweet = attrIs (str ''data-testid'') (str ''tweet'')"

definition isTweetText :: "node \<Rightarrow> bool" where
  \<comment> \<open>SELECTORS.TWEET_TEXT, \<open>[data-testid="tweetText"]\<close>\<close>
  "isTweetText = attrIs (str ''data-testid'') (str ''tweetText'')"

definition isActionBar :: "node \<Rightarrow> bool" where
  \<comment> \<open>SELECTORS.ACTION_BAR, \<open>[role="group"]\<close>\<close>
  "isActionBar = attrIs (str ''role'') (str ''group'')"

definition isAnchor :: "node \<Rightarrow> bool" where
  \<comment> \<open>the selector \<open>a\<close>\<close>
  "isAnchor n = (isElement n \<and> tagName n = str ''A'')"

definition createLinkButton :: "jsstring \<Rightarrow> node" where
  "createLinkButton worldName =
     (let button = createElement (str ''BUTTON'');
          button = setAttribute button (str ''class'') btnClass;
          button = setTextContent button BUTTON_TEXT_DEFAULT;
          button = setAttribute button (str ''title'')
                     ([0x22] @ worldName @ [0x22, 0x20, 0x3092] @ str ''VRChat'' @ [0x3067, 0x691C, 0x7D22]);
          button = setAttribute button (str ''aria-label'')
                     (worldName @ [0x20, 0x306E, 0x30EF, 0x30FC, 0x30EB, 0x30C9, 0x30DA, 0x30FC, 0x30B8,
                                   0x3092, 0x958B, 0x304F]);
          button = addClickListener button (OpenWorldClick worldName)
      in button)"

definition createSearchButton :: "jsstring \<Rightarrow> node" where
  "createSearchButton worldName =
     (let button = createElement (str ''BUTTON'');
          button = setAttribute button (str ''class'') (btnClass @ str '' search-only-btn'');
          button = setTextContent button BUTTON_TEXT_SEARCH_ONLY;
          button = setAttribute button (str ''title'')
                     ([0x22] @ worldName @ [0x22, 0x20, 0x3092] @ str ''VRChat'' @
                      [0x306E, 0x691C, 0x7D22, 0x30DA, 0x30FC, 0x30B8, 0x3067, 0x958B, 0x304F]);
          button = setAttribute button (str ''aria-label'')
                     (worldName @ [0x20, 0x306E, 0x691C, 0x7D22, 0x30DA, 0x30FC, 0x30B8, 0x3092, 0x958B,
                                   0x304F]);
          button = setAttribute button (str ''style'') (str ''margin-left: 8px;'');
          button = addClickListener button (SearchClick worldName)
      in button)"

text \<open>
  What a click on a control does first: the open control opens the page of the world
  whose identifier the button carries in \<open>dataset.worldId\<close>, or else asks the background
  script to search the world by the name the listener was created with; the search
  control calls \<open>openSearchPage\<close> with its name.
\<close>

datatype effect = OpenWorldPage jsstring | RequestSearchWorld jsstring | OpenSearchPage jsstring

fun onClick :: "node \<Rightarrow> listener \<Rightarrow> effect" where
  "onClick button (OpenWorldClick worldName) =
     (if attrProp button (str ''data-world-id'') \<noteq> []
      then OpenWorldPage (attrProp button (str ''data-world-id''))
      else RequestSearchWorld worldName)"
| "onClick button (SearchClick worldName) = OpenSearchPage worldName"

definition click :: "node \<Rightarrow> effect list" where
  "click button = map (onClick button) (listeners button)"

section \<open>Post Processor\<close>

record settings =
  isExtensionEnabled :: bool
  showOpenBtn :: bool
  showSearchBtn :: bool

text \<open>
  The loop over the links of the post, lines 351 to 370. \<open>link.href\<close> is read as the
  value of the \<open>href\<close> attribute, which stands for the resolved URL the DOM reports.
\<close>

fun findWorldId :: "node list \<Rightarrow> jsstring option" where
  "findWorldId [] = None"
| "findWorldId (link # links) =
     (case extractWorldIdFromUrl (attrProp link (str ''href'')) of
        Some hrefId \<Rightarrow> Some hrefId
      | None \<Rightarrow>
          (case extractWorldIdFromUrl (textContent link) of
             Some textId \<Rightarrow> Some textId
           | None \<Rightarrow>
               (case extractWorldIdFromUrl (attrProp link (str ''title'')) of
                  Some titleId \<Rightarrow> Some titleId
                | None \<Rightarrow> findWorldId links)))"

text \<open>The open control of lines 386 to 399, if one is made.\<close>

definition openControl :: "jsstring option \<Rightarrow> jsstring option \<Rightarrow> node option" where
  "openControl worldName foundWorldId =
     (case foundWorldId of
        Some wid \<Rightarrow>
          Some (setAttribute
                  (setAttribute (createLinkButton [0x3053, 0x306E, 0x30EF, 0x30FC, 0x30EB, 0x30C9])
                     (str ''data-world-id'') wid)
                  (str ''title'')
                  [0x30DD, 0x30B9, 0x30C8, 0x5185, 0x306E, 0x30EA, 0x30F3, 0x30AF, 0x304B, 0x3089, 0x691C,
                   0x51FA, 0x3055, 0x308C, 0x305F, 0x30EF, 0x30FC, 0x30EB, 0x30C9, 0x3092, 0x958B, 0x304F])
      | None \<Rightarrow>
          (case worldName of
             Some name \<Rightarrow> Some (createLinkButton name)
           | None \<Rightarrow> None))"

text \<open>The Control Group of lines 382 to 405.\<close>

definition buildContainer :: "settings \<Rightarrow> jsstring option \<Rightarrow> jsstring option \<Rightarrow> node" where
  "buildContainer st worldName foundWorldId =
     (let container = setAttribute (createElement (str ''DIV'')) (str ''class'') containerClass;
          container =
            (if showOpenBtn st then
               (case openControl worldName foundWorldId of
                  Some openBtn \<Rightarrow> appendChild container openBtn
                | None \<Rightarrow> container)
             else container);
          container =
            (case worldName of
               Some name \<Rightarrow>
                 if showSearchBtn st then appendChild container (createSearchButton name)
                 else container
             | None \<Rightarrow> container)
      in container)"

text \<open>
  \<open>processTweet\<close>. Its first argument stands for \<open>String.prototype.toLowerCase\<close>, whose
  Unicode tables are no part of the repository. A text node or comment is returned as
  it is: the function is only called on elements.
\<close>

definition processTweet :: "(jsstring \<Rightarrow> jsstring) \<Rightarrow> settings \<Rightarrow> node \<Rightarrow> node" where
  "processTweet toLowerCase st tweetElement =
     (if \<not> isElement tweetElement \<or> hasAttribute tweetElement PROCESSED_ATTR then tweetElement
      else
        let tweetElement = setAttribute tweetElement PROCESSED_ATTR (str ''true'') in
        (case querySelector isTweetText tweetElement of
           None \<Rightarrow> tweetElement
         | Some tweetTextElement \<Rightarrow>
             let tweetText = getTextWithEmoji (Some tweetTextElement) in
             if tweetText = [] then tweetElement
             else if \<not> includesStr (toLowerCase tweetText) TARGET_HASHTAG then tweetElement
             else
               let worldName = extractWorldName tweetText;
                   links = querySelectorAll isAnchor tweetElement;
                   foundWorldId = findWorldId links
               in
               if worldName = None \<and> foundWorldId = None then tweetElement
               else if querySelector (hasClass btnClass) tweetElement \<noteq> None then tweetElement
               else
                 let container = buildContainer st worldName foundWorldId in
                 if childNodes container \<noteq> [] then
                   (case insertBeforeFirst isActionBar container (childNodes tweetElement) of
                      Some ch' \<Rightarrow>
                        Element (tagName tweetElement) (attributes tweetElement)
                          (listeners tweetElement) ch'
                    | None \<Rightarrow> tweetElement)
                 else tweetElement))"

section \<open>Feed Scanner\<close>

text \<open>
  \<open>document.querySelectorAll(sel)\<close> is a static list of the matching elements in document
  order, and \<open>forEach\<close> calls the function on each of them in the document as it is by
  then. The k-th element of the list is found again as the k-th matching element of the
  document: \<open>processTweet\<close> adds, removes and moves no element with the attribute
  \<open>data-testid\<close>. \<open>applyNth sel f k ns\<close> replaces the k-th element matching \<open>sel\<close> among
  the nodes of \<open>ns\<close> by its image under \<open>f\<close>; the second component is \<open>None\<close> when that
  was done, and otherwise the number of matching elements still to pass.
\<close>

fun applyNth :: "(node \<Rightarrow> bool) \<Rightarrow> (node \<Rightarrow> node) \<Rightarrow> nat \<Rightarrow> node list \<Rightarrow> node list \<times> nat option" where
  "applyNth sel f k [] = ([], Some k)"
| "applyNth sel f k (Element tg at ls ch # ns) =
     (if sel (Element tg at ls ch) \<and> k = 0 then (f (Element tg at ls ch) # ns, None)
      else
        (case applyNth sel f (if sel (Element tg at ls ch) then k - 1 else k) ch of
           (ch', None) \<Rightarrow> (Element tg at ls ch' # ns, None)
         | (ch', Some k') \<Rightarrow>
             (case applyNth sel f k' ns of (ns', r) \<Rightarrow> (Element tg at ls ch' # ns', r))))"
| "applyNth sel f k (n # ns) =
     (if sel n \<and> k = 0 then (f n # ns, None)
      else (case applyNth sel f (if sel n then k - 1 else k) ns of (ns', r) \<Rightarrow> (n # ns', r)))"

definition forEachMatching :: "(node \<Rightarrow> bool) \<Rightarrow> (node \<Rightarrow> node) \<Rightarrow> document \<Rightarrow> document" where
  "forEachMatching sel f d =
     fold (\<lambda>k d'. fst (applyNth sel f k d')) [0..<length (filter sel (nodesOf d))] d"

definition processAllTweets :: "(jsstring \<Rightarrow> jsstring) \<Rightarrow> settings \<Rightarrow> document \<Rightarrow> document" where
  "processAllTweets toLowerCase st d = forEachMatching isTweet (processTweet toLowerCase st) d"

section \<open>Settings\<close>

text \<open>
  The values a settings object can hold, and an object as the list of its own
  properties; a property that is not there reads as \<open>undefined\<close>.
\<close>

datatype jsval = JUndefined | JNull | JBool bool | JNumber int | JString jsstring

type_synonym jsobject = "(jsstring \<times> jsval) list"

definition getProp :: "jsobject \<Rightarrow> jsstring \<Rightarrow> jsval" where
  "getProp obj key = (case map_of obj key of None \<Rightarrow> JUndefined | Some v \<Rightarrow> v)"

text \<open>\<open>v !== false\<close>\<close>

definition notFalse :: "jsval \<Rightarrow> bool" where
  "notFalse v = (v \<noteq> JBool False)"

definition EXTENSION_ENABLED :: jsstring where
  "EXTENSION_ENABLED = str ''extensionEnabled''"

definition SHOW_OPEN_BTN :: jsstring where
  "SHOW_OPEN_BTN = str ''showOpenBtn''"

definition SHOW_SEARCH_BTN :: jsstring where
  "SHOW_SEARCH_BTN = str ''showSearchBtn''"

definition UPDATE_SETTINGS :: jsstring where
  "UPDATE_SETTINGS = str ''updateSettings''"

text \<open>The state the content script starts with, lines 90 to 97.\<close>

definition initialSettings :: settings where
  "initialSettings = \<lparr>isExtensionEnabled = True, showOpenBtn = True, showSearchBtn = True\<rparr>"

text \<open>The three assignments of lines 486 to 488 and of lines 519 to 521.\<close>

definition readSettings :: "jsobject \<Rightarrow> settings" where
  "readSettings obj =
     \<lparr>isExtensionEnabled = notFalse (getProp obj EXTENSION_ENABLED),
      showOpenBtn = notFalse (getProp obj SHOW_OPEN_BTN),
      showSearchBtn = notFalse (getProp obj SHOW_SEARCH_BTN)\<rparr>"

text \<open>The result of \<open>await chrome.storage.local.get(keys)\<close>: an object, or a rejection.\<close>

datatype 'a promise = Resolved 'a | Rejected

text \<open>
  \<open>processAllTweetsIfEnabled\<close>; the third component is the number of calls of
  \<open>processAllTweets\<close> it made.
\<close>

definition processAllTweetsIfEnabled ::
  "(jsstring \<Rightarrow> jsstring) \<Rightarrow> jsobject promise \<Rightarrow> settings \<times> document
     \<Rightarrow> settings \<times> document \<times> nat" where
  "processAllTweetsIfEnabled toLowerCase got sd =
     (case sd of (st, d) \<Rightarrow>
        (case got of
           Resolved result \<Rightarrow>
             let st' = st\<lparr>isExtensionEnabled := notFalse (getProp result EXTENSION_ENABLED)\<rparr> in
             if isExtensionEnabled st' then (st', processAllTweets toLowerCase st' d, 1)
             else (st', d, 0)
         | Rejected \<Rightarrow> (st, processAllTweets toLowerCase st d, 1)))"

text \<open>
  A message to the content script: its \<open>action\<close> and, if there is one, its \<open>settings\<close>
  object. \<open>None\<close> as a message is a request that is \<open>null\<close> or \<open>undefined\<close>.
\<close>

record message =
  action :: jsstring
  msgSettings :: "jsobject option"

definition onMessage ::
  "(jsstring \<Rightarrow> jsstring) \<Rightarrow> message option \<Rightarrow> settings \<times> document \<Rightarrow> settings \<times> document" where
  "onMessage toLowerCase request sd =
     (case sd of (st, d) \<Rightarrow>
        (case request of
           None \<Rightarrow> (st, d)
         | Some m \<Rightarrow>
             if action m = UPDATE_SETTINGS then
               (case msgSettings m of
                  None \<Rightarrow> (st, d)
                | Some obj \<Rightarrow>
                    let st' = readSettings obj;
                        d1 = removeMatching (hasClass containerClass) d;
                        d2 = removeAttributeAll PROCESSED_ATTR d1
                    in (st', if isExtensionEnabled st' then processAllTweets toLowerCase st' d2 else d2))
             else (st, d)))"

text \<open>\<open>init\<close>; the third component tells that the observer was set up.\<close>

definition init ::
  "(jsstring \<Rightarrow> jsstring) \<Rightarrow> jsobject promise \<Rightarrow> settings \<times> document \<Rightarrow> settings \<times> document \<times> bool" where
  "init toLowerCase got sd =
     (case sd of (st, d) \<Rightarrow>
        (case got of
           Resolved result \<Rightarrow>
             let st' = readSettings result in
             (st', if isExtensionEnabled st' then processAllTweets toLowerCase st' d else d, True)
         | Rejected \<Rightarrow> (st, d, True)))"

section \<open>Mutation Watcher\<close>

text \<open>
  The page as the event loop sees it: the settings and the document, the variable
  \<open>debounceTimerId\<close>, the timers that are set and have neither fired nor been cleared
  (identifier and time due, in milliseconds), the next timer identifier, the clock, what
  reading the storage gives, a count of the calls of the timer's callback
  \<open>processAllTweetsIfEnabled\<close> and a count of the calls of the Feed Scanner
  \<open>processAllTweets\<close> these made. The callback is run as one step when its timer fires.
\<close>

record page =
  config :: settings
  doc :: document
  debounceTimerId :: "nat option"
  pending :: "(nat \<times> nat) list"
  nextTimerId :: nat
  now :: nat
  stored :: "jsobject promise"
  gatedScans :: nat
  feedScans :: nat

definition DEBOUNCE_DELAY_MS :: nat where
  "DEBOUNCE_DELAY_MS = 300"

definition setTimeout :: "nat \<Rightarrow> page \<Rightarrow> nat \<times> page" where
  "setTimeout delay p =
     (nextTimerId p,
      p\<lparr>pending := pending p @ [(nextTimerId p, now p + delay)], nextTimerId := Suc (nextTimerId p)\<rparr>)"

definition clearTimeout :: "nat \<Rightarrow> page \<Rightarrow> page" where
  "clearTimeout i p = p\<lparr>pending := filter (\<lambda>(j, due). j \<noteq> i) (pending p)\<rparr>"

text \<open>A mutation record; only the nodes it added are looked at.\<close>

record mutation =
  addedNodes :: "node list"

text \<open>The callback of the MutationObserver, lines 449 to 466.\<close>

definition shouldProcess :: "mutation list \<Rightarrow> bool" where
  "shouldProcess mutations = list_ex (\<lambda>m. length (addedNodes m) > 0) mutations"

definition observerCallback :: "mutation list \<Rightarrow> page \<Rightarrow> page" where
  "observerCallback mutations p =
     (if shouldProcess mutations then
        let p1 = (case debounceTimerId p of None \<Rightarrow> p | Some i \<Rightarrow> clearTimeout i p);
            (i, p2) = setTimeout DEBOUNCE_DELAY_MS p1
        in p2\<lparr>debounceTimerId := Some i\<rparr>
      else p)"

definition timerFired :: "(jsstring \<Rightarrow> jsstring) \<Rightarrow> page \<Rightarrow> page" where
  "timerFired toLowerCase p =
     (case processAllTweetsIfEnabled toLowerCase (stored p) (config p, doc p) of
        (st', d', n) \<Rightarrow>
          p\<lparr>config := st', doc := d', gatedScans := Suc (gatedScans p),
            feedScans := feedScans p + n\<rparr>)"

text \<open>The clock moves on to \<open>t\<close>: the timers due by then fire, in the order they were set.\<close>

definition advance :: "(jsstring \<Rightarrow> jsstring) \<Rightarrow> nat \<Rightarrow> page \<Rightarrow> page" where
  "advance toLowerCase t p =
     fold (\<lambda>timer q. timerFired toLowerCase q)
       (filter (\<lambda>(i, due). due \<le> t) (pending p))
       (p\<lparr>pending := filter (\<lambda>(i, due). \<not> due \<le> t) (pending p), now := max (now p) t\<rparr>)"

text \<open>A mutation batch is delivered at time \<open>t\<close>.\<close>

definition deliver :: "(jsstring \<Rightarrow> jsstring) \<Rightarrow> nat \<times> mutation list \<Rightarrow> page \<Rightarrow> page" where
  "deliver toLowerCase ev p = observerCallback (snd ev) (advance toLowerCase (fst ev) p)"

definition run :: "(jsstring \<Rightarrow> jsstring) \<Rightarrow> (nat \<times> mutation list) list \<Rightarrow> page \<Rightarrow> page" where
  "run toLowerCase evs p = fold (deliver toLowerCase) evs p"

text \<open>
  A burst: each batch has an added node and arrives less than the debounce delay after
  the one before it, which arrived at \<open>prev\<close>.
\<close>

fun burst :: "nat \<Rightarrow> (nat \<times> mutation list) list \<Rightarrow> bool" where
  "burst prev [] = True"
| "burst prev ((t, ms) # evs) =
     (prev \<le> t \<and> t < prev + DEBOUNCE_DELAY_MS \<and> shouldProcess ms \<and> burst t evs)"

text \<open>The ASCII part of \<open>toLowerCase\<close>, for the examples below.\<close>

definition asciiLower :: "jsstring \<Rightarrow> jsstring" where
  "asciiLower s = map (\<lambda>c. if 0x41 \<le> c \<and> c \<le> 0x5A then c + 32 else c) s"

section \<open>Notions used in the statements\<close>

text \<open>The number of Control Groups at or below a node.\<close>

definition controlGroups :: "node \<Rightarrow> nat" where
  "controlGroups n = length (filter (hasClass containerClass) (nodesOf [n]))"

text \<open>
  The identifier grammar in the words of the specification, read without regard to case:
  the prefix \<open>wrld_\<close> and 36 characters that are hex digits or hyphens.
\<close>

definition hexOrHyphenCI :: "nat \<Rightarrow> bool" where
  "hexOrHyphenCI c =
     (0x30 \<le> c \<and> c \<le> 0x39 \<or> 0x61 \<le> c \<and> c \<le> 0x66 \<or> 0x41 \<le> c \<and> c \<le> 0x46 \<or> c = 0x2D)"

definition isWorldIdCI :: "jsstring \<Rightarrow> bool" where
  "isWorldIdCI w =
     (length w = 41 \<and> asciiLower (take 5 w) = str ''wrld_'' \<and> list_all hexOrHyphenCI (drop 5 w))"

text \<open>Items that hold no capture group.\<close>

fun noGrp :: "re \<Rightarrow> bool" where
  "noGrp (Opt rs) = list_all noGrp rs"
| "noGrp (Alt rss) = list_all (list_all noGrp) rss"
| "noGrp (Grp rs) = False"
| "noGrp GrpEnd = False"
| "noGrp r = True"

text \<open>
  \<open>noMatchIn p prev pre s\<close>: in the string \<open>pre\<close> followed by \<open>s\<close>, the pattern \<open>p\<close>
  matches at no position of \<open>pre\<close>; \<open>prev\<close> is the code unit before \<open>pre\<close>.
\<close>

fun noMatchIn :: "flags \<times> re list \<Rightarrow> nat option \<Rightarrow> jsstring \<Rightarrow> jsstring \<Rightarrow> bool" where
  "noMatchIn p prev [] s = True"
| "noMatchIn p prev (c # pre) s =
     (mt (fst p) (snd p) prev (c # pre @ s) [] None = None \<and> noMatchIn p (Some c) pre s)"

text \<open>
  What the terminator \<open>(?:\s*$|\s*#|\n|<)\<close> of the first pattern matches: the string begins
  with a line feed (U+000A) or with \<open><\<close>, or it is white space (the characters of \<open>\s\<close>)
  up to a \<open>#\<close> or up to its end.
\<close>

definition endsCapture :: "jsstring \<Rightarrow> bool" where
  "endsCapture s =
     ((case s of [] \<Rightarrow> False | c # cs \<Rightarrow> c = 0x0A \<or> c = 0x3C)
      \<or> (case dropWhile isWhiteSpace s of [] \<Rightarrow> True | c # cs \<Rightarrow> c = 0x23))"

section \<open>Example inputs\<close>

text \<open>
  A post whose text holds \<open>World: Alpha\<close> but not the trigger hashtag, with an action bar.
\<close>

definition postWithoutHashtag :: node where
  "postWithoutHashtag =
     Element (str ''ARTICLE'') [(str ''data-testid'', str ''tweet'')] []
       [Element (str ''DIV'') [(str ''data-testid'', str ''tweetText'')] []
          [TextNode (str ''World: Alpha'')],
        Element (str ''DIV'') [(str ''role'', str ''group'')] [] []]"

text \<open>
  A post with the text \<open>World: Alpha\<close>, a line feed and the trigger hashtag, a link to a
  world page and an action bar.
\<close>

definition postTextElement :: node where
  "postTextElement =
     Element (str ''DIV'') [(str ''data-testid'', str ''tweetText'')] []
       [TextNode (str ''World: Alpha'' @ [0x0A] @ str ''#VRChat_World'' @ [0x7D39, 0x4ECB])]"

definition postLink :: node where
  "postLink =
     Element (str ''A'')
       [(str ''href'', str ''https://vrchat.com/home/world/wrld_12345678-1234-1234-1234-1234567890ab'')]
       [] [TextNode (str ''link'')]"

definition postActionBar :: node where
  "postActionBar = Element (str ''DIV'') [(str ''role'', str ''group'')] [] []"

definition postWithLinkAndName :: node where
  "postWithLinkAndName =
     Element (str ''ARTICLE'') [(str ''data-testid'', str ''tweet'')] []
       [postTextElement, postLink, postActionBar]"

text \<open>
  A page on which no timer is pending, and a mutation batch with one added node.
\<close>

definition quietPage :: page where
  "quietPage =
     \<lparr>config = initialSettings, doc = [], debounceTimerId = None, pending = [], nextTimerId = 1,
      now = 0, stored = Resolved [], gatedScans = 0, feedScans = 0\<rparr>"

text \<open>The same page where the stored enabled flag is \<open>false\<close>.\<close>

definition disabledPage :: page where
  "disabledPage = quietPage\<lparr>stored := Resolved [(EXTENSION_ENABLED, JBool False)]\<rparr>"

definition oneAdded :: "mutation list" where
  "oneAdded = [\<lparr>addedNodes = [TextNode (str ''x'')]\<rparr>]"

section \<open>Evaluation\<close>

text \<open>\<open>Rep\<close> with a numeral as the count.\<close>

lemma mt_Rep_numeral:
  "mt f (Rep (numeral n) a # k) prev rest opn cap =
     (case step f a rest of
        None \<Rightarrow> None
      | Some (l, rest') \<Rightarrow> mt f (Rep (pred_numeral n) a # k) (Some l) rest' opn cap)"
  by (simp add: numeral_eq_Suc)

lemma mt_Rep_1:
  "mt f (Rep 1 a # k) prev rest opn cap =
     (case step f a rest of
        None \<Rightarrow> None
      | Some (l, rest') \<Rightarrow> mt f k (Some l) rest' opn cap)"
  using mt.simps(8)[of f 0 a k prev rest opn cap] by (simp split: option.splits)

lemmas re_eval =
  matchRe_def replaceFirst_def str_def lit_def flagI_def flagU_def flagIM_def noFlags_def
  step_def canonicalize_def isWhiteSpace_def isLineTerminator_def isLead_def isTrail_def
  codePoint_def trim_def capture_def terminator_def terminatorCR_def colon_def openBracket_def
  closeBracket_def globe_def katakanaWorld_def kanjiName_def mt_Rep_numeral mt_Rep_1

lemmas name_eval =
  extractWorldName_def WORLD_PATTERNS_def tryPattern_def cleanup_def
  reHashtagSuffix_def reTrailingBrackets_def reEmoji_def reSurrogate_def

lemmas id_eval = extractWorldIdFromUrl_def rePathForm_def reQueryForm_def worldIdGroup_def

section \<open>Text Normalizer and Extractor together\<close>

text \<open>
  C7. An element whose children are the text \<open>World: \<close>, an image with the alt text
  U+1F30D (the globe emoji, the surrogate pair D83C DF0D) and the text \<open>Park\<close> is
  normalized to \<open>World: \<close>, the emoji, \<open>Park\<close>; and the extractor returns exactly
  \<open>Park\<close> for that string.
\<close>

theorem normalization_round_trip:
  "getTextWithEmoji
     (Some (Element tg [] []
        [TextNode (str ''World: ''),
         Element (str ''IMG'') [(str ''alt'', [0xD83C, 0xDF0D])] [] [],
         TextNode (str ''Park'')]))
     = str ''World: '' @ [0xD83C, 0xDF0D] @ str ''Park''
   \<and> extractWorldName (str ''World: '' @ [0xD83C, 0xDF0D] @ str ''Park'') = Some (str ''Park'')"
  by (simp add: getTextWithEmoji_def attrProp_def getAttribute_def re_eval name_eval)

section \<open>Cleanup of a match\<close>

text \<open>
  C6. The claim is that the cleanup keeps a well-formed surrogate pair outside the block
  U+1F300 to U+1F9FF. The last replacement of the cleanup removes every code unit from
  D800 to DFFF, paired or not: from \<open>World: A\<close>, U+20BB7 (the pair D842 DFB7), \<open>B\<close> the
  extractor returns \<open>AB\<close>.
\<close>

theorem cleanup_strips_paired_surrogates:
  "extractWorldName (str ''World: A'' @ [0xD842, 0xDFB7] @ str ''B'') = Some (str ''AB'')"
  by (simp add: re_eval name_eval)

section \<open>Facts about the document\<close>

lemma nodesOf_Nil: "nodesOf [] = []"
  by (simp add: nodesOf_def)

lemma nodesOf_Cons: "nodesOf (n # ns) = n # descendants n @ nodesOf ns"
  by (simp add: nodesOf_def)

lemma descendants_Element [simp]: "descendants (Element tg at ls ch) = nodesOf ch"
  by (simp add: nodesOf_def)

declare descendants.simps(1) [simp del]

lemma nodesOf_append: "nodesOf (xs @ ys) = nodesOf xs @ nodesOf ys"
  by (simp add: nodesOf_def)

lemma hasClass_children: "hasClass c (Element tg at ls ch) = hasClass c (Element tg at ls ch')"
  by (simp add: hasClass_def attrProp_def getAttribute_def)

lemma hasAttribute_children:
  "hasAttribute (Element tg at ls ch) name = hasAttribute (Element tg at ls ch') name"
  by (simp add: hasAttribute_def getAttribute_def)

lemma map_of_filter_other:
  "key \<noteq> name \<Longrightarrow> map_of (filter (\<lambda>(k, w). k \<noteq> name) at) key = map_of at key"
  by (induction at) auto

lemma map_of_filter_same: "map_of (filter (\<lambda>(k, w). k \<noteq> name) at) name = None"
  by (induction at) auto

lemma removeMatching_none:
  "list_all (\<lambda>n. \<not> hasClass c n) (nodesOf (removeMatching (hasClass c) d))"
proof (induction "hasClass c" d rule: removeMatching.induct)
  case 1
  show ?case by (simp add: nodesOf_Nil)
next
  case (2 tg at ls ch ns)
  show ?case
  proof (cases "hasClass c (Element tg at ls ch)")
    case True
    with 2 show ?thesis by simp
  next
    case False
    then have "\<not> hasClass c (Element tg at ls (removeMatching (hasClass c) ch))"
      using hasClass_children by blast
    with 2 False show ?thesis
      by (simp add: nodesOf_Cons descendants_Element)
  qed
qed (simp_all add: nodesOf_Cons hasClass_def)

lemma removeAttributeAll_none:
  "list_all (\<lambda>n. \<not> hasAttribute n name) (nodesOf (removeAttributeAll name d))"
  by (induction name d rule: removeAttributeAll.induct)
     (simp_all add: nodesOf_Nil nodesOf_Cons descendants_Element hasAttribute_def
        getAttribute_def map_of_filter_same)

lemma removeAttributeAll_keeps_class:
  "name \<noteq> str ''class'' \<Longrightarrow> list_all (\<lambda>n. \<not> hasClass c n) (nodesOf d) \<Longrightarrow>
   list_all (\<lambda>n. \<not> hasClass c n) (nodesOf (removeAttributeAll name d))"
  by (induction name d rule: removeAttributeAll.induct)
     (simp_all add: nodesOf_Nil nodesOf_Cons descendants_Element hasClass_def attrProp_def
        getAttribute_def map_of_filter_other)

section \<open>Settings update\<close>

text \<open>
  C8. On a settings-update message that carries a settings object, the handler takes the
  new flags, removes every Control Group and clears every Processed Marker of the
  document, and then runs the full scan if and only if the new enabled flag is not
  \<open>false\<close>. The document the scan starts from (which is the final document when the flag
  is \<open>false\<close>) has no element with a marker and no Control Group: nothing of the epoch
  before is kept.
\<close>

theorem settings_update_resets:
  "onMessage lc (Some \<lparr>action = UPDATE_SETTINGS, msgSettings = Some obj\<rparr>) (st, d) =
     (readSettings obj,
      if getProp obj EXTENSION_ENABLED \<noteq> JBool False
      then processAllTweets lc (readSettings obj)
             (removeAttributeAll PROCESSED_ATTR (removeMatching (hasClass containerClass) d))
      else removeAttributeAll PROCESSED_ATTR (removeMatching (hasClass containerClass) d))
   \<and> list_all (\<lambda>n. \<not> hasAttribute n PROCESSED_ATTR \<and> \<not> hasClass containerClass n)
        (nodesOf (removeAttributeAll PROCESSED_ATTR (removeMatching (hasClass containerClass) d)))"
proof -
  have ne: "PROCESSED_ATTR \<noteq> str ''class''"
    by (simp add: PROCESSED_ATTR_def str_def)
  have a: "list_all (\<lambda>n. \<not> hasAttribute n PROCESSED_ATTR)
        (nodesOf (removeAttributeAll PROCESSED_ATTR (removeMatching (hasClass containerClass) d)))"
    by (rule removeAttributeAll_none)
  have b: "list_all (\<lambda>n. \<not> hasClass containerClass n)
        (nodesOf (removeAttributeAll PROCESSED_ATTR (removeMatching (hasClass containerClass) d)))"
    by (rule removeAttributeAll_keeps_class [OF ne removeMatching_none])
  have c: "onMessage lc (Some \<lparr>action = UPDATE_SETTINGS, msgSettings = Some obj\<rparr>) (st, d) =
     (readSettings obj,
      if getProp obj EXTENSION_ENABLED \<noteq> JBool False
      then processAllTweets lc (readSettings obj)
             (removeAttributeAll PROCESSED_ATTR (removeMatching (hasClass containerClass) d))
      else removeAttributeAll PROCESSED_ATTR (removeMatching (hasClass containerClass) d))"
    by (simp add: onMessage_def Let_def readSettings_def notFalse_def)
  from a b c show ?thesis
    by (simp add: list_all_iff)
qed

section \<open>Settings flags\<close>

text \<open>
  C10. A flag read at initialization, delivered by a settings-update message, or (the
  enabled flag) read before a debounced scan is true unless the stored value is exactly
  the boolean \<open>false\<close>. A key that is missing or \<open>undefined\<close> reads as \<open>undefined\<close>, so
  all three flags are true for an empty object; they are true as well in the state the
  script starts with, which a failed read at initialization leaves as it is.
\<close>

theorem flags_true_unless_false:
  "fst (init lc (Resolved obj) (st, d)) =
     \<lparr>isExtensionEnabled = (getProp obj EXTENSION_ENABLED \<noteq> JBool False),
      showOpenBtn = (getProp obj SHOW_OPEN_BTN \<noteq> JBool False),
      showSearchBtn = (getProp obj SHOW_SEARCH_BTN \<noteq> JBool False)\<rparr>
   \<and> fst (onMessage lc (Some \<lparr>action = UPDATE_SETTINGS, msgSettings = Some obj\<rparr>) (st, d)) =
     \<lparr>isExtensionEnabled = (getProp obj EXTENSION_ENABLED \<noteq> JBool False),
      showOpenBtn = (getProp obj SHOW_OPEN_BTN \<noteq> JBool False),
      showSearchBtn = (getProp obj SHOW_SEARCH_BTN \<noteq> JBool False)\<rparr>
   \<and> fst (processAllTweetsIfEnabled lc (Resolved obj) (st, d)) =
     st\<lparr>isExtensionEnabled := (getProp obj EXTENSION_ENABLED \<noteq> JBool False)\<rparr>
   \<and> getProp [] key = JUndefined
   \<and> getProp [(key, JUndefined)] key = JUndefined
   \<and> fst (init lc (Resolved []) (st, d)) =
     \<lparr>isExtensionEnabled = True, showOpenBtn = True, showSearchBtn = True\<rparr>
   \<and> fst (onMessage lc (Some \<lparr>action = UPDATE_SETTINGS, msgSettings = Some []\<rparr>) (st, d)) =
     \<lparr>isExtensionEnabled = True, showOpenBtn = True, showSearchBtn = True\<rparr>
   \<and> initialSettings = \<lparr>isExtensionEnabled = True, showOpenBtn = True, showSearchBtn = True\<rparr>
   \<and> init lc Rejected (initialSettings, d) = (initialSettings, d, True)"
  by (simp add: init_def onMessage_def processAllTweetsIfEnabled_def readSettings_def Let_def
      notFalse_def getProp_def initialSettings_def)

section \<open>Facts about the Post Processor\<close>

lemma isElement_setAttribute [simp]: "isElement (setAttribute t a v) = isElement t"
  by (cases t) simp_all

lemma descendants_setAttribute [simp]: "descendants (setAttribute t a v) = descendants t"
  by (cases t) simp_all

lemma childNodes_setAttribute [simp]: "childNodes (setAttribute t a v) = childNodes t"
  by (cases t) simp_all

lemma map_of_setAttr_same: "map_of (setAttr a v at) a = Some v"
  by (induction a v at rule: setAttr.induct) auto

lemma map_of_setAttr_other: "k \<noteq> a \<Longrightarrow> map_of (setAttr a v at) k = map_of at k"
  by (induction a v at rule: setAttr.induct) auto

lemma hasAttribute_setAttribute_same: "hasAttribute (setAttribute t a v) a = isElement t"
  by (cases t) (simp_all add: hasAttribute_def getAttribute_def map_of_setAttr_same)

lemma hasAttribute_nonElement: "\<not> isElement t \<Longrightarrow> \<not> hasAttribute t a"
  by (cases t) (simp_all add: hasAttribute_def getAttribute_def)

lemma hasClass_setAttribute_other:
  "a \<noteq> str ''class'' \<Longrightarrow> hasClass c (setAttribute t a v) = hasClass c t"
  by (cases t) (simp_all add: hasClass_def attrProp_def getAttribute_def map_of_setAttr_other)

lemma querySelector_setAttribute [simp]:
  "querySelector sel (setAttribute t a v) = querySelector sel t"
  by (simp add: querySelector_def)

lemma querySelectorAll_setAttribute [simp]:
  "querySelectorAll sel (setAttribute t a v) = querySelectorAll sel t"
  by (simp add: querySelectorAll_def)

lemma processTweet_marked:
  "hasAttribute t PROCESSED_ATTR \<Longrightarrow> processTweet lc st t = t"
  by (simp add: processTweet_def)

lemma processTweet_nonElement: "\<not> isElement t \<Longrightarrow> processTweet lc st t = t"
  by (simp add: processTweet_def)

lemma hasAttribute_rebuild:
  "isElement t \<Longrightarrow> hasAttribute (Element (tagName t) (attributes t) (listeners t) ch) a = hasAttribute t a"
  by (cases t) (simp_all add: hasAttribute_def getAttribute_def)

lemma processTweet_marks: "hasAttribute (processTweet lc st t) PROCESSED_ATTR = isElement t"
proof (cases "isElement t")
  case False
  then show ?thesis by (simp add: processTweet_nonElement hasAttribute_nonElement)
next
  case True
  show ?thesis
  proof (cases "hasAttribute t PROCESSED_ATTR")
    case True
    with \<open>isElement t\<close> show ?thesis by (simp add: processTweet_marked)
  next
    case False
    with True show ?thesis
      by (simp add: processTweet_def Let_def hasAttribute_setAttribute_same hasAttribute_rebuild
          split: option.splits)
  qed
qed



lemmas dom_eval =
  createLinkButton_def createSearchButton_def createElement_def openControl_def buildContainer_def
  btnClass_def containerClass_def hasClass_def attrProp_def getAttribute_def isAsciiSpace_def
  str_def nodesOf_def Let_def


lemma hasClass_rebuild:
  "isElement t \<Longrightarrow> hasClass c (Element (tagName t) (attributes t) (listeners t) ch) = hasClass c t"
  by (cases t) (simp_all add: hasClass_def attrProp_def getAttribute_def)

lemma controlGroups_setAttribute:
  "a \<noteq> str ''class'' \<Longrightarrow> controlGroups (setAttribute t a v) = controlGroups t"
  by (simp add: controlGroups_def nodesOf_Cons nodesOf_Nil hasClass_setAttribute_other)


lemma PROCESSED_ATTR_not_class: "PROCESSED_ATTR \<noteq> str ''class''"
  by (simp add: PROCESSED_ATTR_def str_def)


lemmas post_eval =
  processTweet_def querySelector_def querySelectorAll_def getTextWithEmoji_def isTweetText_def
  isTweet_def isActionBar_def isAnchor_def attrIs_def hasAttribute_def PROCESSED_ATTR_def
  TARGET_HASHTAG_def asciiLower_def initialSettings_def controlGroups_def

section \<open>Idempotence of the Post Processor\<close>



section \<open>The activation gate\<close>

text \<open>
  C4. If the normalized text of the post's text container does not contain the trigger
  hashtag after lower-casing, the Post Processor does no more than set the marker (on an
  element that has none): the children of the post stay as they are and the number of
  Control Groups is unchanged, whatever the patterns would extract from the text.
\<close>

theorem gate_blocks:
  assumes "\<not> includesStr (lc (getTextWithEmoji (querySelector isTweetText t))) TARGET_HASHTAG"
  shows "processTweet lc st t =
           (if isElement t \<and> \<not> hasAttribute t PROCESSED_ATTR
            then setAttribute t PROCESSED_ATTR (str ''true'') else t)
         \<and> childNodes (processTweet lc st t) = childNodes t
         \<and> controlGroups (processTweet lc st t) = controlGroups t"
proof -
  have eq: "processTweet lc st t =
           (if isElement t \<and> \<not> hasAttribute t PROCESSED_ATTR
            then setAttribute t PROCESSED_ATTR (str ''true'') else t)"
    using assms
    by (auto simp: processTweet_def Let_def getTextWithEmoji_def split: option.splits)
  then show ?thesis
    by (simp add: controlGroups_setAttribute [OF PROCESSED_ATTR_not_class])
qed

text \<open>
  The gate at work on \<open>postWithoutHashtag\<close>: the extractor would return \<open>Alpha\<close> for
  its text, and no Control Group is attached.
\<close>

theorem gate_blocks_witness:
  "\<not> includesStr (asciiLower (getTextWithEmoji (querySelector isTweetText postWithoutHashtag)))
       TARGET_HASHTAG
   \<and> extractWorldName (getTextWithEmoji (querySelector isTweetText postWithoutHashtag))
       = Some (str ''Alpha'')
   \<and> processTweet asciiLower initialSettings postWithoutHashtag
       = setAttribute postWithoutHashtag PROCESSED_ATTR (str ''true'')
   \<and> controlGroups (processTweet asciiLower initialSettings postWithoutHashtag) = 0"
proof -
  have h: "\<not> includesStr (asciiLower (getTextWithEmoji (querySelector isTweetText postWithoutHashtag)))
       TARGET_HASHTAG"
    by (simp add: postWithoutHashtag_def post_eval dom_eval)
  have n: "extractWorldName (getTextWithEmoji (querySelector isTweetText postWithoutHashtag))
       = Some (str ''Alpha'')"
    by (simp add: postWithoutHashtag_def post_eval dom_eval re_eval name_eval)
  have e: "isElement postWithoutHashtag \<and> \<not> hasAttribute postWithoutHashtag PROCESSED_ATTR"
    by (simp add: postWithoutHashtag_def post_eval dom_eval)
  have c: "controlGroups postWithoutHashtag = 0"
    by (simp add: postWithoutHashtag_def post_eval dom_eval)
  from gate_blocks [where lc = asciiLower and t = postWithoutHashtag and st = initialSettings, OF h]
    h n e c show ?thesis
    by (simp add: controlGroups_setAttribute [OF PROCESSED_ATTR_not_class])
qed

section \<open>Facts about the matcher\<close>

lemma step_nu:
  "\<not> unicode f \<Longrightarrow> step f a (c # cs) = (if atomMatches f a c then Some (c, cs) else None)"
  by (cases cs) (simp_all add: step_def)

lemma step_Nil: "step f a [] = None"
  by (simp add: step_def)

lemma mt_A_nu:
  "\<not> unicode f \<Longrightarrow>
   mt f (A a # k) prev (c # cs) opn cap =
     (if atomMatches f a c then mt f k (Some c) cs opn cap else None)"
  by (simp add: step_nu)

lemma mt_As_nu:
  "\<not> unicode f \<Longrightarrow>
   mt f (map A as @ k) prev rest opn cap =
     (if length as \<le> length rest \<and> list_all2 (atomMatches f) as (take (length as) rest)
      then mt f k (if as = [] then prev else Some (rest ! (length as - 1)))
             (drop (length as) rest) opn cap
      else None)"
proof (induction as arbitrary: prev rest)
  case Nil
  then show ?case by simp
next
  case (Cons a as)
  show ?case
  proof (cases rest)
    case Nil
    then show ?thesis by (simp add: step_Nil)
  next
    case (Cons c cs)
    with Cons.prems Cons.IH [of "Some c" cs] show ?thesis
      by (cases as) (auto simp: step_nu)
  qed
qed

lemma mt_Rep_nu:
  "\<not> unicode f \<Longrightarrow>
   mt f (Rep n a # k) prev rest opn cap =
     (if n \<le> length rest \<and> list_all (atomMatches f a) (take n rest)
      then mt f k (if n = 0 then prev else Some (rest ! (n - 1))) (drop n rest) opn cap
      else None)"
proof (induction n arbitrary: prev rest)
  case 0
  then show ?case by simp
next
  case (Suc n)
  show ?case
  proof (cases rest)
    case Nil
    then show ?thesis by (simp add: step_Nil)
  next
    case (Cons c cs)
    with Suc.prems Suc.IH [of "Some c" cs] show ?thesis
      by (cases n) (auto simp: step_nu)
  qed
qed

lemma mt_lit_group:
  assumes nu: "\<not> unicode f"
  shows "mt f (map A as @ [Grp (map A bs @ [Rep n a])]) prev rest [] None =
     (if length as + length bs + n \<le> length rest
         \<and> list_all2 (atomMatches f) as (take (length as) rest)
         \<and> list_all2 (atomMatches f) bs (take (length bs) (drop (length as) rest))
         \<and> list_all (atomMatches f a) (take n (drop (length as + length bs) rest))
      then Some (drop (length as + length bs + n) rest,
                 Some (take (length bs + n) (drop (length as) rest)))
      else None)"
proof -
  have grp: "\<And>p r. mt f [Grp (map A bs @ [Rep n a])] p r [] None =
     (if length bs + n \<le> length r
         \<and> list_all2 (atomMatches f) bs (take (length bs) r)
         \<and> list_all (atomMatches f a) (take n (drop (length bs) r))
      then Some (drop (length bs + n) r, Some (take (length bs + n) r))
      else None)"
  proof -
    fix p r
    have "mt f [Grp (map A bs @ [Rep n a])] p r [] None =
          mt f (map A bs @ (Rep n a # [GrpEnd])) p r r None"
      by simp
    also have "\<dots> =
     (if length bs + n \<le> length r
         \<and> list_all2 (atomMatches f) bs (take (length bs) r)
         \<and> list_all (atomMatches f a) (take n (drop (length bs) r))
      then Some (drop (length bs + n) r, Some (take (length bs + n) r))
      else None)"
      by (simp only: mt_As_nu [OF nu] mt_Rep_nu [OF nu]) (auto simp: add.commute)
    finally show "mt f [Grp (map A bs @ [Rep n a])] p r [] None =
     (if length bs + n \<le> length r
         \<and> list_all2 (atomMatches f) bs (take (length bs) r)
         \<and> list_all (atomMatches f a) (take n (drop (length bs) r))
      then Some (drop (length bs + n) r, Some (take (length bs + n) r))
      else None)" .
  qed
  show ?thesis
    by (simp only: mt_As_nu [OF nu] grp) (auto simp: ac_simps drop_take)
qed

lemma atomMatches_Chr_ci:
  "atomMatches flagI (Chr a) c = (asciiLower [c] = asciiLower [a])"
  by (auto simp: canonicalize_def flagI_def asciiLower_def)

lemma list_all2_Chr_ci:
  "list_all2 (atomMatches flagI) (map Chr as) cs = (asciiLower cs = asciiLower as)"
proof (induction as arbitrary: cs)
  case Nil
  then show ?case by (simp add: asciiLower_def)
next
  case (Cons a as)
  show ?case
  proof (cases cs)
    case Nil
    then show ?thesis by (simp add: asciiLower_def)
  next
    case (Cons c cs')
    with Cons.IH [of cs'] atomMatches_Chr_ci [of a c] show ?thesis
      by (simp add: asciiLower_def)
  qed
qed

lemma lit_alt: "lit s = map A (map Chr (str s))"
  by (simp add: lit_def str_def)

lemma search_nu:
  "\<not> unicode f \<Longrightarrow>
   search f r acc prev (c # cs) =
     (case mt f r prev (c # cs) [] None of
        Some (rest', cap) \<Rightarrow> Some (rev acc, cap, rest')
      | None \<Rightarrow> search f r (c # acc) (Some c) cs)"
  by (cases cs) (simp_all cong: option.case_cong)

lemma atomMatches_hex:
  "atomMatches flagI (Cls [CRange 0x61 0x66, CRange 0x30 0x39, CChar 0x2D]) c = hexOrHyphenCI c"
  by (simp add: canonicalize_def flagI_def hexOrHyphenCI_def) arith

lemma search_sound:
  "search f r acc prev s = Some (b, cap, a) \<Longrightarrow> \<exists>prev' s'. mt f r prev' s' [] None = Some (a, cap)"
  by (induction f r acc prev s rule: search.induct)
     (auto split: option.splits if_splits)

lemma mt_lit_group_sound:
  assumes nu: "\<not> unicode f"
    and m: "mt f (map A as @ [Grp (map A bs @ [Rep n a])]) prev rest [] None = Some (r, cap)"
  shows "\<exists>w. cap = Some w \<and> length w = length bs + n
             \<and> list_all2 (atomMatches f) bs (take (length bs) w)
             \<and> list_all (atomMatches f a) (drop (length bs) w)"
proof -
  let ?d = "drop (length as) rest"
  let ?w = "take (length bs + n) ?d"
  from m have c: "length as + length bs + n \<le> length rest"
    and b: "list_all2 (atomMatches f) bs (take (length bs) ?d)"
    and h: "list_all (atomMatches f a) (take n (drop (length as + length bs) rest))"
    and cap: "cap = Some ?w"
    unfolding mt_lit_group [OF nu] by (simp_all split: if_splits)
  from c have len: "length ?w = length bs + n" by simp
  have tk: "take (length bs) ?w = take (length bs) ?d" by (simp add: min_def)
  have "drop (length bs) ?w = take n (drop (length bs) ?d)" by (simp add: drop_take)
  also have "drop (length bs) ?d = drop (length as + length bs) rest" by (simp add: add.commute)
  finally have dr: "drop (length bs) ?w = take n (drop (length as + length bs) rest)" .
  show ?thesis
  proof (intro exI conjI)
    show "cap = Some ?w" by (rule cap)
    show "length ?w = length bs + n" by (rule len)
    show "list_all2 (atomMatches f) bs (take (length bs) ?w)" using b by (simp only: tk)
    show "list_all (atomMatches f a) (drop (length bs) ?w)" using h by (simp only: dr)
  qed
qed

lemma worldIdGroup_sound:
  assumes "mt flagI (map A as @ [worldIdGroup]) prev rest [] None = Some (r, cap)"
  shows "\<exists>w. cap = Some w \<and> isWorldIdCI w"
proof -
  have nu: "\<not> unicode flagI" by (simp add: flagI_def)
  have g: "worldIdGroup =
      Grp (map A (map Chr (str ''wrld_'')) @ [Rep 36 (Cls [CRange 0x61 0x66, CRange 0x30 0x39, CChar 0x2D])])"
    by (simp add: worldIdGroup_def lit_alt)
  from assms obtain w where w: "cap = Some w" "length w = length (map Chr (str ''wrld_'')) + 36"
      "list_all2 (atomMatches flagI) (map Chr (str ''wrld_'')) (take (length (map Chr (str ''wrld_''))) w)"
      "list_all (atomMatches flagI (Cls [CRange 0x61 0x66, CRange 0x30 0x39, CChar 0x2D]))
         (drop (length (map Chr (str ''wrld_''))) w)"
    unfolding g using mt_lit_group_sound [OF nu] by blast
  have l5: "length (map Chr (str ''wrld_'')) = 5" by (simp add: str_def)
  have low: "asciiLower (str ''wrld_'') = str ''wrld_''" by (simp add: asciiLower_def str_def)
  have hex: "atomMatches flagI (Cls [CRange 0x61 0x66, CRange 0x30 0x39, CChar 0x2D]) = hexOrHyphenCI"
    by (rule ext) (rule atomMatches_hex)
  from w(2) l5 have "length w = 41" by simp
  moreover from w(3) have "asciiLower (take 5 w) = str ''wrld_''"
    by (simp only: l5 list_all2_Chr_ci low)
  moreover from w(4) have "list_all hexOrHyphenCI (drop 5 w)"
    by (simp only: l5 hex)
  ultimately have "isWorldIdCI w" by (simp add: isWorldIdCI_def)
  with w(1) show ?thesis by blast
qed

lemma rePathForm_alt:
  "snd rePathForm = map A (map Chr (str ''vrchat.com/home/world/'')) @ [worldIdGroup]"
  by (simp add: rePathForm_def lit_alt)

lemma reQueryForm_alt:
  "snd reQueryForm = map A (Cls [CChar 0x3F, CChar 0x26] # map Chr (str ''worldId='')) @ [worldIdGroup]"
  by (simp add: reQueryForm_def lit_alt)

lemma matchRe_worldId_sound:
  assumes "matchRe p url = Some (b, m, a)" and "fst p = flagI" and "snd p = map A as @ [worldIdGroup]"
  shows "\<exists>w. m = Some w \<and> isWorldIdCI w"
proof -
  from assms(1) have "search flagI (map A as @ [worldIdGroup]) [] None url = Some (b, m, a)"
    by (simp add: matchRe_def assms(2) assms(3))
  from search_sound [OF this] obtain prev' s'
    where "mt flagI (map A as @ [worldIdGroup]) prev' s' [] None = Some (a, m)" by blast
  then show ?thesis by (rule worldIdGroup_sound)
qed

lemma extractWorldIdFromUrl_sound:
  assumes "extractWorldIdFromUrl url = Some w"
  shows "isWorldIdCI w"
proof (cases "matchRe rePathForm url")
  case (Some x)
  obtain b m a where x: "x = (b, m, a)" by (cases x) auto
  from Some x have "matchRe rePathForm url = Some (b, m, a)" by simp
  from matchRe_worldId_sound [OF this _ rePathForm_alt] obtain w' where "m = Some w'" "isWorldIdCI w'"
    by (auto simp: rePathForm_def)
  with assms Some x show ?thesis
    by (simp add: extractWorldIdFromUrl_def split: if_splits)
next
  case None
  note n1 = None
  show ?thesis
  proof (cases "matchRe reQueryForm url")
    case (Some x)
    obtain b m a where x: "x = (b, m, a)" by (cases x) auto
    from Some x have "matchRe reQueryForm url = Some (b, m, a)" by simp
    from matchRe_worldId_sound [OF this _ reQueryForm_alt] obtain w' where "m = Some w'" "isWorldIdCI w'"
      by (auto simp: reQueryForm_def)
    with assms n1 Some x show ?thesis
      by (simp add: extractWorldIdFromUrl_def split: if_splits)
  next
    case None
    with assms n1 show ?thesis
      by (simp add: extractWorldIdFromUrl_def split: if_splits)
  qed
qed

lemma unicode_flagI: "unicode flagI = False"
  by (simp add: flagI_def)

lemma mt_path_at:
  "mt flagI (lit ''vrchat.com/home/world/'' @ [worldIdGroup]) prev rest [] None =
     (if 63 \<le> length rest
         \<and> asciiLower (take 22 rest) = str ''vrchat.com/home/world/''
         \<and> asciiLower (take 5 (drop 22 rest)) = str ''wrld_''
         \<and> list_all hexOrHyphenCI (take 36 (drop 27 rest))
      then Some (drop 63 rest, Some (take 41 (drop 22 rest)))
      else None)"
proof -
  have nu: "\<not> unicode flagI" by (simp add: flagI_def)
  have g: "worldIdGroup =
      Grp (map A (map Chr (str ''wrld_'')) @ [Rep 36 (Cls [CRange 0x61 0x66, CRange 0x30 0x39, CChar 0x2D])])"
    by (simp add: worldIdGroup_def lit_alt)
  have hex: "atomMatches flagI (Cls [CRange 0x61 0x66, CRange 0x30 0x39, CChar 0x2D]) = hexOrHyphenCI"
    by (rule ext) (rule atomMatches_hex)
  have l22: "length (map Chr (str ''vrchat.com/home/world/'')) = 22" by (simp add: str_def)
  have l5: "length (map Chr (str ''wrld_'')) = 5" by (simp add: str_def)
  have low1: "asciiLower (str ''vrchat.com/home/world/'') = str ''vrchat.com/home/world/''"
    by (simp add: asciiLower_def str_def)
  have low2: "asciiLower (str ''wrld_'') = str ''wrld_''" by (simp add: asciiLower_def str_def)
  show ?thesis
    unfolding lit_alt g mt_lit_group [OF nu] l22 l5 list_all2_Chr_ci hex low1 low2
    by simp
qed

lemma extractWorldIdFromUrl_path:
  assumes "isWorldIdCI w"
  shows "extractWorldIdFromUrl (str ''https://vrchat.com/home/world/'' @ w @ post) = Some w"
proof -
  from assms have len: "length w = 41" and pre: "asciiLower (take 5 w) = str ''wrld_''"
    and hex: "list_all hexOrHyphenCI (drop 5 w)"
    by (simp_all add: isWorldIdCI_def)
  have "matchRe rePathForm (str ''https://vrchat.com/home/world/'' @ w @ post)
          = Some (str ''https://'', Some w, post)"
    using len pre hex
    by (simp add: matchRe_def rePathForm_def str_def unicode_flagI mt_path_at [unfolded str_def, simplified]
          asciiLower_def)
  then show ?thesis
    by (simp add: extractWorldIdFromUrl_def str_def)
qed

section \<open>The identifier grammar\<close>

text \<open>
  C3, as stated, says that a candidate with 37 hex or hyphen characters yields no
  identifier. The pattern has no anchor behind the 36 characters: from such a candidate
  the first 36 are taken.
\<close>

theorem worldId_37_extracted:
  "extractWorldIdFromUrl
     (str ''https://vrchat.com/home/world/wrld_12345678-1234-1234-1234-1234567890abc'')
   = Some (str ''wrld_12345678-1234-1234-1234-1234567890ab'')"
  by (simp add: re_eval id_eval)

text \<open>
  C3, amended. Every identifier the Link Resolver extracts from any string is the prefix
  \<open>wrld_\<close> followed by exactly 36 hex digits or hyphens, both read without regard to case
  (the patterns carry the \<open>i\<close> flag); and every such identifier is extracted from a
  path-form URL that holds it, whatever follows it.
\<close>

theorem worldId_grammar:
  "(extractWorldIdFromUrl url = Some w \<longrightarrow> isWorldIdCI w)
   \<and> (isWorldIdCI w' \<longrightarrow>
        extractWorldIdFromUrl (str ''https://vrchat.com/home/world/'' @ w' @ post) = Some w')"
  using extractWorldIdFromUrl_sound [of url w] extractWorldIdFromUrl_path [of w' post]
  by blast

text \<open>
  An upper-case identifier in a query-form URL and in a path-form URL is extracted; a
  candidate with 35 characters and one with another prefix give nothing.
\<close>

theorem worldId_grammar_witness:
  "extractWorldIdFromUrl
     (str ''https://vrchat.com/home/launch?worldId=WRLD_12345678-1234-1234-1234-1234567890AB&x=1'')
     = Some (str ''WRLD_12345678-1234-1234-1234-1234567890AB'')
   \<and> isWorldIdCI (str ''WRLD_12345678-1234-1234-1234-1234567890AB'')
   \<and> extractWorldIdFromUrl
       (str ''https://vrchat.com/home/world/'' @ str ''WRLD_12345678-1234-1234-1234-1234567890AB''
          @ str ''/info'')
     = Some (str ''WRLD_12345678-1234-1234-1234-1234567890AB'')
   \<and> extractWorldIdFromUrl
       (str ''https://vrchat.com/home/world/wrld_12345678-1234-1234-1234-1234567890a'') = None
   \<and> extractWorldIdFromUrl
       (str ''https://vrchat.com/home/world/wold_12345678-1234-1234-1234-1234567890ab'') = None"
proof -
  have a: "extractWorldIdFromUrl
     (str ''https://vrchat.com/home/launch?worldId=WRLD_12345678-1234-1234-1234-1234567890AB&x=1'')
     = Some (str ''WRLD_12345678-1234-1234-1234-1234567890AB'')"
    by (simp add: re_eval id_eval)
  have b: "extractWorldIdFromUrl
       (str ''https://vrchat.com/home/world/wrld_12345678-1234-1234-1234-1234567890a'') = None"
    by (simp add: re_eval id_eval)
  have c: "extractWorldIdFromUrl
       (str ''https://vrchat.com/home/world/wold_12345678-1234-1234-1234-1234567890ab'') = None"
    by (simp add: re_eval id_eval)
  from a b c
    worldId_grammar [of
      "str ''https://vrchat.com/home/launch?worldId=WRLD_12345678-1234-1234-1234-1234567890AB&x=1''"
      "str ''WRLD_12345678-1234-1234-1234-1234567890AB''"
      "str ''WRLD_12345678-1234-1234-1234-1234567890AB''" "str ''/info''"]
  show ?thesis by blast
qed

section \<open>Facts about the extractor\<close>

lemma extractLoop_first:
  "extractLoop ps text = Some w \<longleftrightarrow>
     (\<exists>i<length ps. tryPattern (ps ! i) text = Some w
                    \<and> (\<forall>j<i. tryPattern (ps ! j) text = None))"
proof (induction ps)
  case Nil
  then show ?case by simp
next
  case (Cons p ps)
  show ?case
  proof (cases "tryPattern p text")
    case (Some v)
    show ?thesis
    proof
      assume "extractLoop (p # ps) text = Some w"
      with Some have "v = w" by simp
      with Some have "tryPattern ((p # ps) ! 0) text = Some w \<and> (\<forall>j<0. tryPattern ((p # ps) ! j) text = None)"
        by simp
      then show "\<exists>i<length (p # ps). tryPattern ((p # ps) ! i) text = Some w
                    \<and> (\<forall>j<i. tryPattern ((p # ps) ! j) text = None)"
        by (intro exI [of _ 0]) simp
    next
      assume "\<exists>i<length (p # ps). tryPattern ((p # ps) ! i) text = Some w
                    \<and> (\<forall>j<i. tryPattern ((p # ps) ! j) text = None)"
      then obtain i where i: "i < length (p # ps)" "tryPattern ((p # ps) ! i) text = Some w"
        "\<forall>j<i. tryPattern ((p # ps) ! j) text = None" by blast
      have "i = 0"
      proof (rule ccontr)
        assume "i \<noteq> 0"
        then have "0 < i" by simp
        with i(3) have "tryPattern ((p # ps) ! 0) text = None" by blast
        with Some show False by simp
      qed
      with i(2) Some show "extractLoop (p # ps) text = Some w" by simp
    qed
  next
    case None
    have "(\<exists>i<length (p # ps). tryPattern ((p # ps) ! i) text = Some w
                    \<and> (\<forall>j<i. tryPattern ((p # ps) ! j) text = None))
          \<longleftrightarrow> (\<exists>i<length ps. tryPattern (ps ! i) text = Some w
                    \<and> (\<forall>j<i. tryPattern (ps ! j) text = None))"
    proof
      assume "\<exists>i<length (p # ps). tryPattern ((p # ps) ! i) text = Some w
                    \<and> (\<forall>j<i. tryPattern ((p # ps) ! j) text = None)"
      then obtain i where i: "i < length (p # ps)" "tryPattern ((p # ps) ! i) text = Some w"
        "\<forall>j<i. tryPattern ((p # ps) ! j) text = None" by blast
      from i(2) None obtain i' where i': "i = Suc i'" by (cases i) auto
      have "\<forall>j<i'. tryPattern (ps ! j) text = None"
      proof (intro allI impI)
        fix j assume "j < i'"
        then have "Suc j < i" by (simp add: i')
        with i(3) have "tryPattern ((p # ps) ! Suc j) text = None" by blast
        then show "tryPattern (ps ! j) text = None" by simp
      qed
      with i(1) i(2) i' show "\<exists>i<length ps. tryPattern (ps ! i) text = Some w
                    \<and> (\<forall>j<i. tryPattern (ps ! j) text = None)"
        by (intro exI [of _ i']) simp
    next
      assume "\<exists>i<length ps. tryPattern (ps ! i) text = Some w
                    \<and> (\<forall>j<i. tryPattern (ps ! j) text = None)"
      then obtain i where i: "i < length ps" "tryPattern (ps ! i) text = Some w"
        "\<forall>j<i. tryPattern (ps ! j) text = None" by blast
      have "\<forall>j<Suc i. tryPattern ((p # ps) ! j) text = None"
      proof (intro allI impI)
        fix j assume j: "j < Suc i"
        show "tryPattern ((p # ps) ! j) text = None"
        proof (cases j)
          case 0
          with None show ?thesis by simp
        next
          case (Suc j')
          with j i(3) show ?thesis by simp
        qed
      qed
      with i(1) i(2) show "\<exists>i<length (p # ps). tryPattern ((p # ps) ! i) text = Some w
                    \<and> (\<forall>j<i. tryPattern ((p # ps) ! j) text = None)"
        by (intro exI [of _ "Suc i"]) simp
    qed
    with None Cons.IH show ?thesis by simp
  qed
qed

lemma tryPattern_Some:
  "tryPattern p text = Some w \<longleftrightarrow>
     (\<exists>b m a. matchRe p text = Some (b, Some m, a) \<and> m \<noteq> [] \<and> cleanup m = w \<and> w \<noteq> [])"
  by (auto simp: tryPattern_def split: option.splits if_splits)

lemma mt_keeps_capture:
  "list_all noGrp k \<Longrightarrow> mt f k prev rest opn cap = Some (r, c) \<Longrightarrow> c = cap"
proof (induction f k prev rest opn cap arbitrary: r c rule: mt.induct)
  case (1 f prev rest opn cap)
  then show ?case by simp
next
  case (2 f a k prev rest opn cap)
  note e = "2.prems"(2) [unfolded mt.simps(2) [of f a k prev rest opn cap]]
  from e "2.IH" "2.prems"(1) show ?case
    by (auto split: option.splits simp del: mt.simps)
next
  case (3 f a k prev rest opn cap)
  note e = "3.prems"(2) [unfolded mt.simps(3) [of f a k prev rest opn cap]]
  from e "3.IH" "3.prems"(1) show ?case
    by (auto split: option.splits simp del: mt.simps)
next
  case (4 f a k prev rest opn cap)
  note e = "4.prems"(2) [unfolded mt.simps(4) [of f a k prev rest opn cap]]
  from e "4.IH" "4.prems"(1) show ?case
    by (auto split: option.splits simp del: mt.simps)
next
  case (5 f a k prev rest opn cap)
  note e = "5.prems"(2) [unfolded mt.simps(5) [of f a k prev rest opn cap]]
  from e "5.IH" "5.prems"(1) show ?case
    by (auto split: option.splits simp del: mt.simps)
next
  case (6 f a k prev rest opn cap)
  note e = "6.prems"(2) [unfolded mt.simps(6) [of f a k prev rest opn cap]]
  from e "6.IH" "6.prems"(1) show ?case
    by (auto split: option.splits simp del: mt.simps)
next
  case (7 f a k prev rest opn cap)
  note e = "7.prems"(2) [unfolded mt.simps(7) [of f a k prev rest opn cap]]
  from e "7.IH" "7.prems"(1) show ?case
    by (auto simp del: mt.simps)
next
  case (8 f n a k prev rest opn cap)
  note e = "8.prems"(2) [unfolded mt.simps(8) [of f n a k prev rest opn cap]]
  from e "8.IH" "8.prems"(1) show ?case
    by (auto split: option.splits simp del: mt.simps)
next
  case (9 f rs k prev rest opn cap)
  note e = "9.prems"(2) [unfolded mt.simps(9) [of f rs k prev rest opn cap]]
  from e "9.IH" "9.prems"(1) show ?case
    by (auto split: option.splits simp del: mt.simps)
next
  case (10 f k prev rest opn cap)
  then show ?case by simp
next
  case (11 f rs rss k prev rest opn cap)
  note e = "11.prems"(2) [unfolded mt.simps(11) [of f rs rss k prev rest opn cap]]
  from e "11.IH" "11.prems"(1) show ?case
    by (auto split: option.splits simp del: mt.simps)
next
  case (12 f rs k prev rest opn cap)
  then show ?case by simp
next
  case (13 f k prev rest opn cap)
  then show ?case by simp
next
  case (14 f k prev rest opn cap)
  note e = "14.prems"(2) [unfolded mt.simps(14) [of f k prev rest opn cap]]
  from e "14.IH" "14.prems"(1) show ?case
    by (auto split: if_splits simp del: mt.simps)
next
  case (15 f k prev rest opn cap)
  note e = "15.prems"(2) [unfolded mt.simps(15) [of f k prev rest opn cap]]
  from e "15.IH" "15.prems"(1) show ?case
    by (auto split: if_splits simp del: mt.simps)
qed

lemma terminator_fail:
  assumes "\<not> unicode f" "\<not> isWhiteSpace c" "c \<noteq> 0x23" "c \<noteq> 0x3C"
  shows "mt f [terminator] prev (c # cs) opn cap = None"
proof -
  from assms(2) have nl: "\<not> isLineTerminator c" "c \<noteq> 0x0A"
    by (auto simp: isWhiteSpace_def isLineTerminator_def)
  from assms(3) have h: "canonicalize f c \<noteq> 0x23" by (auto simp: canonicalize_def)
  from nl(2) have n: "canonicalize f c \<noteq> 0x0A" by (auto simp: canonicalize_def)
  from assms(4) have l: "canonicalize f c \<noteq> 0x3C" by (auto simp: canonicalize_def)
  have c1: "canonicalize f 0x23 = 0x23" "canonicalize f 0x0A = 0x0A" "canonicalize f 0x3C = 0x3C"
    by (simp_all add: canonicalize_def)
  from assms(1) assms(2) nl h n l show ?thesis
    by (simp add: terminator_def step_nu c1)
qed

lemma cleanup_Alpha: "cleanup (str ''Alpha'') = str ''Alpha''"
  by (simp add: re_eval name_eval)

lemma search_skip:
  assumes nu: "\<not> unicode (fst p)"
  shows "noMatchIn p prev pre s \<Longrightarrow>
     search (fst p) (snd p) acc prev (pre @ s) =
     search (fst p) (snd p) (rev pre @ acc) (if pre = [] then prev else Some (last pre)) s"
proof (induction pre arbitrary: acc prev)
  case Nil
  then show ?case by simp
next
  case (Cons c pre)
  from Cons.prems have n: "mt (fst p) (snd p) prev (c # pre @ s) [] None = None"
    and r: "noMatchIn p (Some c) pre s" by simp_all
  have "search (fst p) (snd p) acc prev ((c # pre) @ s) =
        search (fst p) (snd p) (c # acc) (Some c) (pre @ s)"
    using n by (simp add: search_nu [OF nu])
  also have "\<dots> = search (fst p) (snd p) (rev pre @ c # acc)
                      (if pre = [] then Some c else Some (last pre)) s"
    by (rule Cons.IH [OF r])
  finally show ?case by simp
qed

lemma star_ws_eol:
  assumes nu: "\<not> unicode f"
  shows "list_all isWhiteSpace ws \<Longrightarrow> mt f [Star WS, Eol] prev ws opn cap = Some ([], cap)"
proof (induction ws arbitrary: prev)
  case Nil
  show ?case by (simp add: step_Nil)
next
  case (Cons w ws)
  then have w: "isWhiteSpace w" and ws: "list_all isWhiteSpace ws" by simp_all
  from Cons.IH [OF ws] have ih: "mt f [Star WS, Eol] (Some w) ws opn cap = Some ([], cap)" .
  show ?case
    unfolding mt.simps(3) [of f WS "[Eol]" prev "w # ws" opn cap]
    using w ih by (simp add: step_nu [OF nu] del: mt.simps)
qed

lemma star_ws_hash:
  assumes nu: "\<not> unicode f"
  shows "list_all isWhiteSpace ws \<Longrightarrow>
         mt f [Star WS, A (Chr 0x23)] prev (ws @ 0x23 # rest) opn cap = Some (rest, cap)"
proof (induction ws arbitrary: prev)
  case Nil
  have "\<not> isWhiteSpace 0x23" by (simp add: isWhiteSpace_def isLineTerminator_def)
  then show ?case by (simp add: step_nu [OF nu])
next
  case (Cons w ws)
  then have w: "isWhiteSpace w" and ws: "list_all isWhiteSpace ws" by simp_all
  from Cons.IH [OF ws]
  have ih: "mt f [Star WS, A (Chr 0x23)] (Some w) (ws @ 0x23 # rest) opn cap = Some (rest, cap)" .
  show ?case
    unfolding append_Cons mt.simps(3) [of f WS "[A (Chr 0x23)]" prev "w # ws @ 0x23 # rest" opn cap]
    using w ih by (simp add: step_nu [OF nu] del: mt.simps)
qed

lemma terminator_alts:
  "mt f [terminator] prev s opn cap =
     (case mt f [Star WS, Eol] prev s opn cap of
        Some r \<Rightarrow> Some r
      | None \<Rightarrow>
          (case mt f [Star WS, A (Chr 0x23)] prev s opn cap of
             Some r \<Rightarrow> Some r
           | None \<Rightarrow>
               (case mt f [A (Chr 0x0A)] prev s opn cap of
                  Some r \<Rightarrow> Some r
                | None \<Rightarrow> mt f [A (Chr 0x3C)] prev s opn cap)))"
  by (simp add: terminator_def del: mt.simps(2-9) split: option.splits)

lemma terminator_ok:
  assumes nu: "\<not> unicode f" and e: "endsCapture s"
  shows "\<exists>r. mt f [terminator] prev s opn cap = Some (r, cap)"
proof -
  have k1: "list_all noGrp [Star WS, Eol]" and k2: "list_all noGrp [Star WS, A (Chr 0x23)]"
    by simp_all
  show ?thesis
  proof (cases "mt f [Star WS, Eol] prev s opn cap")
    case (Some x)
    obtain r c where x: "x = (r, c)" by (cases x) auto
    with Some mt_keeps_capture [OF k1] have "c = cap" by blast
    with Some x show ?thesis by (simp add: terminator_alts del: mt.simps)
  next
    case None
    note n1 = None
    show ?thesis
    proof (cases "mt f [Star WS, A (Chr 0x23)] prev s opn cap")
      case (Some x)
      obtain r c where x: "x = (r, c)" by (cases x) auto
      with Some mt_keeps_capture [OF k2] have "c = cap" by blast
      with n1 Some x show ?thesis by (simp add: terminator_alts del: mt.simps)
    next
      case None
      note n2 = None
      have dw: "s = takeWhile isWhiteSpace s @ dropWhile isWhiteSpace s" by simp
      have tw: "list_all isWhiteSpace (takeWhile isWhiteSpace s)"
        by (simp add: list_all_iff) (meson set_takeWhileD)
      have not_empty: "dropWhile isWhiteSpace s \<noteq> []"
      proof
        assume "dropWhile isWhiteSpace s = []"
        with dw tw have "list_all isWhiteSpace s" by simp
        from star_ws_eol [OF nu this, of prev opn cap] n1 show False by simp
      qed
      have not_hash: "\<And>cs. dropWhile isWhiteSpace s \<noteq> 0x23 # cs"
      proof
        fix cs assume d: "dropWhile isWhiteSpace s = 0x23 # cs"
        with dw have "s = takeWhile isWhiteSpace s @ 0x23 # cs" by simp
        with star_ws_hash [OF nu tw, of prev cs opn cap] n2 show False by simp
      qed
      from e not_empty not_hash obtain c cs where s: "s = c # cs" and c: "c = 0x0A \<or> c = 0x3C"
        by (cases s; cases "dropWhile isWhiteSpace s") (auto simp: endsCapture_def)
      have c1: "canonicalize f 0x0A = 0x0A" "canonicalize f 0x3C = 0x3C"
        by (simp_all add: canonicalize_def)
      from c have "mt f [terminator] prev (c # cs) opn cap = Some (cs, cap)"
        using n1 n2 unfolding terminator_alts s
        by (auto simp: mt_A_nu [OF nu] c1 simp del: mt.simps(2-9))
      with s show ?thesis by blast
    qed
  qed
qed

lemma match_Alpha_at:
  assumes e: "endsCapture s"
  shows "\<exists>a. search flagI (lit ''World'' @ [Star WS, A colon, Star WS, capture, terminator])
              acc prev (str ''World: Alpha'' @ s) = Some (rev acc, Some (str ''Alpha''), a)"
proof -
  have nu: "\<not> unicode flagI" by (simp add: flagI_def)
  have "\<forall>prev opn cap. \<exists>r. mt flagI [terminator] prev s opn cap = Some (r, cap)"
    using terminator_ok [OF nu e] by blast
  then obtain r where
    R: "\<And>prev opn cap. mt flagI [terminator] prev s opn cap = Some (r prev opn cap, cap)"
    by metis
  have ws: "\<And>c. isWhiteSpace c = (c = 0x09 \<or> c = 0x0B \<or> c = 0x0C \<or> c = 0x20 \<or> c = 0xA0 \<or> c = 0x1680 \<or>
      (0x2000 \<le> c \<and> c \<le> 0x200A) \<or> c = 0x202F \<or> c = 0x205F \<or> c = 0x3000 \<or>
      c = 0xFEFF \<or> c = 0x0A \<or> c = 0x0D \<or> c = 0x2028 \<or> c = 0x2029)"
    by (simp add: isWhiteSpace_def isLineTerminator_def)
  show ?thesis
    by (simp add: str_def lit_def unicode_flagI search_nu [OF nu] step_nu [OF nu]
          terminator_fail [OF nu] R capture_def colon_def canonicalize_def isLineTerminator_def ws
          del: mt.simps(7,8) search.simps)
qed

lemma extract_Alpha_in:
  assumes n: "noMatchIn (WORLD_PATTERNS ! 0) None pre (str ''World: Alpha'' @ s)"
    and e: "endsCapture s"
  shows "extractWorldName (pre @ str ''World: Alpha'' @ s) = Some (str ''Alpha'')"
proof -
  let ?p = "(flagI, lit ''World'' @ [Star WS, A colon, Star WS, capture, terminator])"
  have p0: "WORLD_PATTERNS ! 0 = ?p" by (simp add: WORLD_PATTERNS_def)
  have nu: "\<not> unicode (fst ?p)" by (simp add: flagI_def)
  from n have n': "noMatchIn ?p None pre (str ''World: Alpha'' @ s)" by (simp only: p0)
  from match_Alpha_at [OF e, of "rev pre @ []" "if pre = [] then None else Some (last pre)"]
  obtain a where
    m: "search flagI (lit ''World'' @ [Star WS, A colon, Star WS, capture, terminator])
          (rev pre @ []) (if pre = [] then None else Some (last pre)) (str ''World: Alpha'' @ s)
        = Some (rev (rev pre @ []), Some (str ''Alpha''), a)" by blast
  have "matchRe ?p (pre @ str ''World: Alpha'' @ s) = Some (pre, Some (str ''Alpha''), a)"
    unfolding matchRe_def using search_skip [OF nu n', of "[]"] m by simp
  then have "tryPattern ?p (pre @ str ''World: Alpha'' @ s) = Some (str ''Alpha'')"
    by (simp add: tryPattern_def cleanup_Alpha) (simp add: str_def)
  then show ?thesis
    by (simp add: extractWorldName_def WORLD_PATTERNS_def) (simp add: str_def)
qed

section \<open>Pattern priority\<close>

text \<open>
  C2, as stated, says that every text holding both \<open>World: Alpha\<close> and a trailing globe
  emoji with \<open>Beta\<close> gives \<open>Alpha\<close>. Where the two stand on one line, the first pattern
  captures up to the end of the line, and the result is \<open>Alpha  Beta\<close> (the emoji is
  removed by the cleanup).
\<close>

theorem same_line_globe_is_captured:
  "extractWorldName (str ''World: Alpha '' @ [0xD83C, 0xDF10] @ str '' Beta'')
     = Some (str ''Alpha  Beta'')"
  by (simp add: re_eval name_eval)

text \<open>
  C2, amended. The extractor returns a name exactly when the text is not empty and some
  pattern of the fixed list yields that name while every pattern listed before it yields
  none; a pattern yields a name when it matches, its capture is not empty and the
  cleanup of the capture, which is the name, is not empty. In particular, take any text
  in which \<open>World: Alpha\<close> is directly followed by a line feed (U+000A), by \<open><\<close>, or by
  optional white space and then \<open>#\<close> or the end of the text, and in which the first
  pattern matches at no position before that \<open>World: Alpha\<close>: the result is \<open>Alpha\<close>,
  whatever else follows, a trailing globe emoji with \<open>Beta\<close> included.
\<close>

theorem pattern_priority:
  "(extractWorldName text = Some w \<longleftrightarrow>
      text \<noteq> [] \<and>
      (\<exists>i<length WORLD_PATTERNS.
          tryPattern (WORLD_PATTERNS ! i) text = Some w
          \<and> (\<forall>j<i. tryPattern (WORLD_PATTERNS ! j) text = None)))
   \<and> (tryPattern p text = Some w \<longleftrightarrow>
        (\<exists>b m a. matchRe p text = Some (b, Some m, a) \<and> m \<noteq> [] \<and> cleanup m = w \<and> w \<noteq> []))
   \<and> (noMatchIn (WORLD_PATTERNS ! 0) None pre (str ''World: Alpha'' @ s) \<and> endsCapture s
        \<longrightarrow> extractWorldName (pre @ str ''World: Alpha'' @ s) = Some (str ''Alpha''))"
  using extractLoop_first [of WORLD_PATTERNS "text" w] tryPattern_Some [of p "text" w]
    extract_Alpha_in [of pre s]
  by (simp add: extractWorldName_def)

text \<open>
  \<open>Hello world! World: Alpha\<close>, a line feed, the globe emoji U+1F310 and \<open>Beta\<close>: the first
  pattern fails at the earlier \<open>world\<close>, the result is \<open>Alpha\<close>, and the third pattern alone
  would give \<open>Beta\<close>. With a carriage return before the line feed the first pattern does
  not match and the result is \<open>Beta\<close>; with an earlier \<open>World: Zed\<close> the result is \<open>Zed\<close>.
\<close>

theorem pattern_priority_witness:
  "noMatchIn (WORLD_PATTERNS ! 0) None (str ''Hello world! '')
     (str ''World: Alpha'' @ 0x0A # [0xD83C, 0xDF10] @ str '' Beta'')
   \<and> endsCapture (0x0A # [0xD83C, 0xDF10] @ str '' Beta'')
   \<and> extractWorldName
       (str ''Hello world! '' @ str ''World: Alpha'' @ 0x0A # [0xD83C, 0xDF10] @ str '' Beta'')
     = Some (str ''Alpha'')
   \<and> tryPattern (WORLD_PATTERNS ! 2)
       (str ''Hello world! '' @ str ''World: Alpha'' @ 0x0A # [0xD83C, 0xDF10] @ str '' Beta'')
     = Some (str ''Beta'')
   \<and> extractWorldName (str ''World: Alpha'' @ [0x0D, 0x0A] @ [0xD83C, 0xDF10] @ str '' Beta'')
     = Some (str ''Beta'')
   \<and> extractWorldName
       (str ''World: Zed'' @ [0x0A] @ str ''World: Alpha'' @ 0x0A # [0xD83C, 0xDF10] @ str '' Beta'')
     = Some (str ''Zed'')"
proof -
  have h1: "noMatchIn (WORLD_PATTERNS ! 0) None (str ''Hello world! '')
     (str ''World: Alpha'' @ 0x0A # [0xD83C, 0xDF10] @ str '' Beta'')"
    by (simp add: re_eval name_eval)
  have h2: "endsCapture (0x0A # [0xD83C, 0xDF10] @ str '' Beta'')"
    by (simp add: endsCapture_def)
  have t2: "tryPattern (WORLD_PATTERNS ! 2)
       (str ''Hello world! '' @ str ''World: Alpha'' @ 0x0A # [0xD83C, 0xDF10] @ str '' Beta'')
     = Some (str ''Beta'')"
    by (simp add: re_eval name_eval)
  have cr: "extractWorldName (str ''World: Alpha'' @ [0x0D, 0x0A] @ [0xD83C, 0xDF10] @ str '' Beta'')
     = Some (str ''Beta'')"
    by (simp add: re_eval name_eval)
  have zed: "extractWorldName
       (str ''World: Zed'' @ [0x0A] @ str ''World: Alpha'' @ 0x0A # [0xD83C, 0xDF10] @ str '' Beta'')
     = Some (str ''Zed'')"
    by (simp add: re_eval name_eval)
  from pattern_priority [where pre = "str ''Hello world! ''"
      and s = "0x0A # [0xD83C, 0xDF10] @ str '' Beta''"] h1 h2
  have "extractWorldName
       (str ''Hello world! '' @ str ''World: Alpha'' @ 0x0A # [0xD83C, 0xDF10] @ str '' Beta'')
     = Some (str ''Alpha'')" by blast
  with h1 h2 t2 cr zed show ?thesis by blast
qed

section \<open>Facts about the Mutation Watcher\<close>

lemma advance_nothing_due:
  assumes "\<forall>(i, due) \<in> set (pending p). t < due"
  shows "advance lc t p = p\<lparr>now := max (now p) t\<rparr>"
proof -
  from assms have a: "filter (\<lambda>(i, due). due \<le> t) (pending p) = []"
    by (auto simp: filter_empty_conv)
  from assms have b: "filter (\<lambda>(i, due). \<not> due \<le> t) (pending p) = pending p"
    by (auto simp: filter_id_conv)
  show ?thesis by (simp add: advance_def a b)
qed

lemma deliver_one_pending:
  assumes "pending p = [(i, due)]" and "debounceTimerId p = Some i" and "t < due"
    and "now p \<le> t" and "shouldProcess ms"
  shows "pending (deliver lc (t, ms) p) = [(nextTimerId p, t + DEBOUNCE_DELAY_MS)]
       \<and> debounceTimerId (deliver lc (t, ms) p) = Some (nextTimerId p)
       \<and> now (deliver lc (t, ms) p) = t
       \<and> gatedScans (deliver lc (t, ms) p) = gatedScans p
       \<and> feedScans (deliver lc (t, ms) p) = feedScans p
       \<and> config (deliver lc (t, ms) p) = config p
       \<and> doc (deliver lc (t, ms) p) = doc p
       \<and> stored (deliver lc (t, ms) p) = stored p"
proof -
  from assms(1) assms(3) have "\<forall>(j, d) \<in> set (pending p). t < d" by simp
  then have adv: "advance lc t p = p\<lparr>now := max (now p) t\<rparr>" by (rule advance_nothing_due)
  from assms(4) have m: "max (now p) t = t" by simp
  show ?thesis
    using assms(1) assms(2) assms(5)
    by (simp add: deliver_def adv m observerCallback_def clearTimeout_def setTimeout_def Let_def)
qed

lemma deliver_none_pending:
  assumes "pending p = []" and "now p \<le> t" and "shouldProcess ms"
  shows "pending (deliver lc (t, ms) p) = [(nextTimerId p, t + DEBOUNCE_DELAY_MS)]
       \<and> debounceTimerId (deliver lc (t, ms) p) = Some (nextTimerId p)
       \<and> now (deliver lc (t, ms) p) = t
       \<and> gatedScans (deliver lc (t, ms) p) = gatedScans p
       \<and> feedScans (deliver lc (t, ms) p) = feedScans p
       \<and> config (deliver lc (t, ms) p) = config p
       \<and> doc (deliver lc (t, ms) p) = doc p
       \<and> stored (deliver lc (t, ms) p) = stored p"
proof -
  from assms(1) have "\<forall>(j, d) \<in> set (pending p). t < d" by simp
  then have adv: "advance lc t p = p\<lparr>now := max (now p) t\<rparr>" by (rule advance_nothing_due)
  from assms(2) have m: "max (now p) t = t" by simp
  show ?thesis
    using assms(1) assms(3)
    by (simp add: deliver_def adv m observerCallback_def clearTimeout_def setTimeout_def Let_def
        split: option.splits)
qed

lemma run_burst:
  assumes "pending p = [(i, now p + DEBOUNCE_DELAY_MS)]" and "debounceTimerId p = Some i"
    and "burst (now p) evs"
  shows "(\<exists>j. pending (run lc evs p) = [(j, now (run lc evs p) + DEBOUNCE_DELAY_MS)]
              \<and> debounceTimerId (run lc evs p) = Some j)
       \<and> now (run lc evs p) = (if evs = [] then now p else fst (last evs))
       \<and> gatedScans (run lc evs p) = gatedScans p
       \<and> feedScans (run lc evs p) = feedScans p
       \<and> config (run lc evs p) = config p
       \<and> doc (run lc evs p) = doc p
       \<and> stored (run lc evs p) = stored p"
  using assms
proof (induction evs arbitrary: p i)
  case Nil
  then show ?case by (simp add: run_def)
next
  case (Cons ev evs)
  obtain t ms where ev: "ev = (t, ms)" by (cases ev) auto
  from Cons.prems(3) ev have b: "now p \<le> t" "t < now p + DEBOUNCE_DELAY_MS" "shouldProcess ms"
    "burst t evs" by simp_all
  let ?q = "deliver lc (t, ms) p"
  from deliver_one_pending [OF Cons.prems(1) Cons.prems(2) b(2) b(1) b(3), of lc]
  have q: "pending ?q = [(nextTimerId p, t + DEBOUNCE_DELAY_MS)]"
    "debounceTimerId ?q = Some (nextTimerId p)" "now ?q = t" "gatedScans ?q = gatedScans p"
    "feedScans ?q = feedScans p" "config ?q = config p" "doc ?q = doc p" "stored ?q = stored p"
    by simp_all
  from q(1) q(3) have q1: "pending ?q = [(nextTimerId p, now ?q + DEBOUNCE_DELAY_MS)]" by simp
  from b(4) q(3) have q3: "burst (now ?q) evs" by simp
  from Cons.IH [OF q1 q(2) q3] q ev show ?case
    by (auto simp: run_def)
qed

lemma advance_fires_one:
  assumes "pending q = [(j, due)]" and "due \<le> T"
  shows "advance lc T q = timerFired lc (q\<lparr>pending := [], now := max (now q) T\<rparr>)"
  using assms by (simp add: advance_def)

lemmas watcher_eval =
  run_def deliver_def advance_def observerCallback_def shouldProcess_def oneAdded_def
  setTimeout_def clearTimeout_def quietPage_def disabledPage_def DEBOUNCE_DELAY_MS_def Let_def
  timerFired_def processAllTweetsIfEnabled_def notFalse_def getProp_def

section \<open>Debounce coalescing\<close>

text \<open>
  C9, as stated, promises exactly one Feed Scanner invocation for every burst. The timer's
  callback is the scan gated by the stored enabled flag: where the stored flag is
  \<open>false\<close>, three batches at 0, 100 and 350 milliseconds lead to one call of the
  callback and to no call of the Feed Scanner.
\<close>

theorem no_feed_scan_when_disabled:
  "gatedScans (advance asciiLower 650
      (run asciiLower [(0, oneAdded), (100, oneAdded), (350, oneAdded)] disabledPage)) = 1
   \<and> feedScans (advance asciiLower 650
      (run asciiLower [(0, oneAdded), (100, oneAdded), (350, oneAdded)] disabledPage)) = 0"
  by (simp add: watcher_eval)

text \<open>
  C9, amended. A first batch with an added node arrives at \<open>t0\<close> on a page with no pending
  timer, and each further batch of \<open>evs\<close> has an added node and arrives less than the
  debounce delay after the one before it. Then no scan runs while the batches arrive and
  exactly one timer is left pending, due one delay after the last batch; once the clock
  has reached that time the timer's callback \<open>processAllTweetsIfEnabled\<close> has run exactly
  once and no timer is pending; the settings and the document are those of that one
  gated scan of the page as it was, and the Feed Scanner has run as often as that scan
  ran it: once, or not at all where the stored enabled flag is \<open>false\<close>. A batch with no
  added node leaves the page, and so its timers, as they are.
\<close>

theorem debounce_coalesces:
  assumes "pending p = []" and "now p \<le> t0" and "shouldProcess ms0" and "burst t0 evs"
    and "fst (last ((t0, ms0) # evs)) + DEBOUNCE_DELAY_MS \<le> T"
  shows "gatedScans (run lc ((t0, ms0) # evs) p) = gatedScans p
       \<and> feedScans (run lc ((t0, ms0) # evs) p) = feedScans p
       \<and> (\<exists>j. pending (run lc ((t0, ms0) # evs) p)
                 = [(j, fst (last ((t0, ms0) # evs)) + DEBOUNCE_DELAY_MS)])
       \<and> gatedScans (advance lc T (run lc ((t0, ms0) # evs) p)) = Suc (gatedScans p)
       \<and> pending (advance lc T (run lc ((t0, ms0) # evs) p)) = []
       \<and> (config (advance lc T (run lc ((t0, ms0) # evs) p)),
           doc (advance lc T (run lc ((t0, ms0) # evs) p)),
           feedScans (advance lc T (run lc ((t0, ms0) # evs) p)) - feedScans p)
          = processAllTweetsIfEnabled lc (stored p) (config p, doc p)
       \<and> feedScans (advance lc T (run lc ((t0, ms0) # evs) p)) =
           feedScans p +
           (case stored p of
              Resolved result \<Rightarrow> if getProp result EXTENSION_ENABLED \<noteq> JBool False then 1 else 0
            | Rejected \<Rightarrow> 1)
       \<and> (\<not> shouldProcess ms \<longrightarrow> observerCallback ms q = q)"
proof -
  let ?p1 = "deliver lc (t0, ms0) p"
  let ?q = "run lc ((t0, ms0) # evs) p"
  from deliver_none_pending [OF assms(1) assms(2) assms(3), of lc]
  have p1: "pending ?p1 = [(nextTimerId p, t0 + DEBOUNCE_DELAY_MS)]"
    "debounceTimerId ?p1 = Some (nextTimerId p)" "now ?p1 = t0" "gatedScans ?p1 = gatedScans p"
    "feedScans ?p1 = feedScans p" "config ?p1 = config p" "doc ?p1 = doc p" "stored ?p1 = stored p"
    by simp_all
  from p1(1) p1(3) have a: "pending ?p1 = [(nextTimerId p, now ?p1 + DEBOUNCE_DELAY_MS)]" by simp
  from assms(4) p1(3) have b: "burst (now ?p1) evs" by simp
  have r: "?q = run lc evs ?p1" by (simp add: run_def)
  from run_burst [OF a p1(2) b, of lc] obtain j where
    q: "pending ?q = [(j, now ?q + DEBOUNCE_DELAY_MS)]"
       "now ?q = (if evs = [] then now ?p1 else fst (last evs))"
       "gatedScans ?q = gatedScans ?p1" "feedScans ?q = feedScans ?p1" "config ?q = config ?p1"
       "doc ?q = doc ?p1" "stored ?q = stored ?p1"
    unfolding r by blast
  from q(2) p1(3) have n: "now ?q = fst (last ((t0, ms0) # evs))" by simp
  from q(1) n have pq: "pending ?q = [(j, fst (last ((t0, ms0) # evs)) + DEBOUNCE_DELAY_MS)]" by simp
  from advance_fires_one [OF pq assms(5), of lc]
  have f: "advance lc T ?q = timerFired lc (?q\<lparr>pending := [], now := max (now ?q) T\<rparr>)" .
  have s1: "gatedScans ?q = gatedScans p" using q(3) p1(4) by simp
  have s1': "feedScans ?q = feedScans p" using q(4) p1(5) by simp
  have s2: "gatedScans (advance lc T ?q) = Suc (gatedScans p)"
    unfolding f using s1 by (simp add: timerFired_def split: prod.splits)
  have s3: "pending (advance lc T ?q) = []"
    unfolding f by (simp add: timerFired_def split: prod.splits)
  have s4: "(config (advance lc T ?q), doc (advance lc T ?q),
             feedScans (advance lc T ?q) - feedScans p)
          = processAllTweetsIfEnabled lc (stored p) (config p, doc p)"
    unfolding f using s1' q(5) q(6) q(7) p1(6) p1(7) p1(8)
    by (simp add: timerFired_def split: prod.splits)
  have s5: "feedScans (advance lc T ?q) =
           feedScans p +
           (case stored p of
              Resolved result \<Rightarrow> if getProp result EXTENSION_ENABLED \<noteq> JBool False then 1 else 0
            | Rejected \<Rightarrow> 1)"
    unfolding f using s1' q(5) q(6) q(7) p1(6) p1(7) p1(8)
    by (simp add: timerFired_def processAllTweetsIfEnabled_def notFalse_def Let_def
        split: prod.splits promise.splits)
  have s6: "\<not> shouldProcess ms \<longrightarrow> observerCallback ms q = q"
    by (simp add: observerCallback_def)
  from s1 s1' pq s2 s3 s4 s5 s6 show ?thesis by blast
qed

text \<open>
  Three batches at 0, 100 and 350 milliseconds on a page whose stored flags are all
  unset: no scan by 649 milliseconds, one gated scan and with it one run of the Feed
  Scanner by 650.
\<close>

theorem debounce_coalesces_witness:
  "pending quietPage = [] \<and> now quietPage \<le> 0 \<and> shouldProcess oneAdded
   \<and> burst 0 [(100, oneAdded), (350, oneAdded)]
   \<and> fst (last [(0, oneAdded), (100, oneAdded), (350, oneAdded)]) + DEBOUNCE_DELAY_MS \<le> 650
   \<and> gatedScans (advance asciiLower 650
        (run asciiLower [(0, oneAdded), (100, oneAdded), (350, oneAdded)] quietPage)) = 1
   \<and> feedScans (advance asciiLower 650
        (run asciiLower [(0, oneAdded), (100, oneAdded), (350, oneAdded)] quietPage)) = 1
   \<and> pending (advance asciiLower 650
        (run asciiLower [(0, oneAdded), (100, oneAdded), (350, oneAdded)] quietPage)) = []
   \<and> gatedScans (advance asciiLower 649
        (run asciiLower [(0, oneAdded), (100, oneAdded), (350, oneAdded)] quietPage)) = 0"
proof -
  have h1: "pending quietPage = []" and h2: "now quietPage \<le> 0"
    by (simp_all add: quietPage_def)
  have h3: "shouldProcess oneAdded" by (simp add: shouldProcess_def oneAdded_def)
  have h4: "burst 0 [(100, oneAdded), (350, oneAdded)]"
    by (simp add: DEBOUNCE_DELAY_MS_def h3)
  have h5: "fst (last [(0, oneAdded), (100, oneAdded), (350, oneAdded)]) + DEBOUNCE_DELAY_MS \<le> 650"
    by (simp add: DEBOUNCE_DELAY_MS_def)
  have s0: "gatedScans quietPage = 0" "feedScans quietPage = 0" "stored quietPage = Resolved []"
    by (simp_all add: quietPage_def)
  have g: "getProp [] EXTENSION_ENABLED = JUndefined" by (simp add: getProp_def)
  have early: "gatedScans (advance asciiLower 649
        (run asciiLower [(0, oneAdded), (100, oneAdded), (350, oneAdded)] quietPage)) = 0"
    by (simp add: run_def deliver_def advance_def observerCallback_def h3 setTimeout_def
        clearTimeout_def quietPage_def DEBOUNCE_DELAY_MS_def Let_def)
  from debounce_coalesces [OF h1 h2 h3 h4 h5, of asciiLower] s0 g h1 h2 h3 h4 h5 early
  show ?thesis by simp
qed

section \<open>Facts about the controls\<close>

lemma findWorldId_sound: "findWorldId links = Some wid \<Longrightarrow> isWorldIdCI wid"
  by (induction links) (auto split: option.splits dest: extractWorldIdFromUrl_sound)

lemma isWorldIdCI_nonempty: "isWorldIdCI w \<Longrightarrow> w \<noteq> []"
  by (auto simp: isWorldIdCI_def)

lemma extractWorldName_nonempty: "extractWorldName t = Some n \<Longrightarrow> t \<noteq> []"
  by (auto simp: extractWorldName_def split: if_splits)

lemma tagName_setAttribute: "tagName (setAttribute t a v) = tagName t"
  by (cases t) simp_all

lemma listeners_setAttribute: "listeners (setAttribute t a v) = listeners t"
  by (cases t) simp_all

lemma attributes_setAttribute:
  "isElement t \<Longrightarrow> attributes (setAttribute t a v) = setAttr a v (attributes t)"
  by (cases t) simp_all

lemma openControl_id:
  assumes "wid \<noteq> []"
  shows "\<exists>openBtn. openControl wn (Some wid) = Some openBtn
           \<and> click openBtn = [OpenWorldPage wid]
           \<and> attrProp openBtn (str ''data-world-id'') = wid"
  using assms
  by (simp add: openControl_def click_def createLinkButton_def createElement_def Let_def
      attrProp_def getAttribute_def str_def)

lemma click_search: "click (createSearchButton name) = [OpenSearchPage name]"
  by (simp add: click_def createSearchButton_def createElement_def Let_def)

lemma buildContainer_both:
  assumes "showOpenBtn st" and "showSearchBtn st" and "openControl (Some name) (Some wid) = Some openBtn"
  shows "buildContainer st (Some name) (Some wid) =
           Element (str ''DIV'') [(str ''class'', containerClass)] [] [openBtn, createSearchButton name]"
  using assms by (simp add: buildContainer_def createElement_def Let_def)

lemma buildContainer_no_name:
  "\<forall>c \<in> set (childNodes (buildContainer st None fid)). \<forall>n. SearchClick n \<notin> set (listeners c)"
  by (cases fid)
     (auto simp: buildContainer_def openControl_def createLinkButton_def createElement_def Let_def)

section \<open>Link precedence\<close>

text \<open>
  C5. A post that has no marker, whose text container holds the trigger hashtag, whose
  text yields a name and whose links yield an identifier, and that has no control yet,
  is processed with both control settings on. Then the Control Group that is built holds
  exactly an open control followed by a search control; a click on the open control opens
  the page of the identifier (not a search for the name) and a click on the search
  control opens the search page for the name; the group is put before the action bar, if
  there is one. A Control Group built without a name holds no search control.
\<close>

theorem link_precedence:
  assumes "isElement t" and "\<not> hasAttribute t PROCESSED_ATTR"
    and "querySelector isTweetText t = Some e"
    and "includesStr (lc (getTextWithEmoji (Some e))) TARGET_HASHTAG"
    and "extractWorldName (getTextWithEmoji (Some e)) = Some name"
    and "findWorldId (querySelectorAll isAnchor t) = Some wid"
    and "querySelector (hasClass btnClass) t = None"
    and "showOpenBtn st" and "showSearchBtn st"
  shows "\<exists>openBtn.
           openControl (Some name) (Some wid) = Some openBtn
         \<and> buildContainer st (Some name) (Some wid) =
             Element (str ''DIV'') [(str ''class'', containerClass)] []
               [openBtn, createSearchButton name]
         \<and> click openBtn = [OpenWorldPage wid]
         \<and> click (createSearchButton name) = [OpenSearchPage name]
         \<and> processTweet lc st t =
             (case insertBeforeFirst isActionBar (buildContainer st (Some name) (Some wid))
                     (childNodes t) of
                Some ch' \<Rightarrow>
                  Element (tagName t) (setAttr PROCESSED_ATTR (str ''true'') (attributes t))
                    (listeners t) ch'
              | None \<Rightarrow> setAttribute t PROCESSED_ATTR (str ''true''))
         \<and> (\<forall>c \<in> set (childNodes (buildContainer st' None fid)).
               \<forall>n. SearchClick n \<notin> set (listeners c))"
proof -
  from assms(6) have "wid \<noteq> []" by (auto dest: findWorldId_sound isWorldIdCI_nonempty)
  from openControl_id [OF this, of "Some name"] obtain openBtn where
    ob: "openControl (Some name) (Some wid) = Some openBtn" "click openBtn = [OpenWorldPage wid]"
    by blast
  note bc = buildContainer_both [OF assms(8) assms(9) ob(1)]
  from assms(5) have ne: "getTextWithEmoji (Some e) \<noteq> []" by (rule extractWorldName_nonempty)
  have pt: "processTweet lc st t =
             (case insertBeforeFirst isActionBar (buildContainer st (Some name) (Some wid))
                     (childNodes t) of
                Some ch' \<Rightarrow>
                  Element (tagName t) (setAttr PROCESSED_ATTR (str ''true'') (attributes t))
                    (listeners t) ch'
              | None \<Rightarrow> setAttribute t PROCESSED_ATTR (str ''true''))"
    using assms(1) assms(2) assms(3) assms(4) assms(5) assms(6) assms(7) ne
    unfolding processTweet_def
    by (simp add: Let_def bc tagName_setAttribute listeners_setAttribute attributes_setAttribute
        split: option.splits)
  from ob bc click_search [of name] pt buildContainer_no_name [of st' fid] show ?thesis by blast
qed

lemmas example_post =
  postWithLinkAndName_def postTextElement_def postLink_def postActionBar_def

text \<open>The post \<open>postWithLinkAndName\<close>, processed with the initial settings.\<close>

theorem link_precedence_witness:
  "isElement postWithLinkAndName \<and> \<not> hasAttribute postWithLinkAndName PROCESSED_ATTR
   \<and> querySelector isTweetText postWithLinkAndName = Some postTextElement
   \<and> includesStr (asciiLower (getTextWithEmoji (Some postTextElement))) TARGET_HASHTAG
   \<and> extractWorldName (getTextWithEmoji (Some postTextElement)) = Some (str ''Alpha'')
   \<and> findWorldId (querySelectorAll isAnchor postWithLinkAndName)
       = Some (str ''wrld_12345678-1234-1234-1234-1234567890ab'')
   \<and> querySelector (hasClass btnClass) postWithLinkAndName = None
   \<and> showOpenBtn initialSettings \<and> showSearchBtn initialSettings
   \<and> (\<exists>openBtn.
         click openBtn = [OpenWorldPage (str ''wrld_12345678-1234-1234-1234-1234567890ab'')]
       \<and> click (createSearchButton (str ''Alpha'')) = [OpenSearchPage (str ''Alpha'')]
       \<and> processTweet asciiLower initialSettings postWithLinkAndName =
           Element (str ''ARTICLE'')
             [(str ''data-testid'', str ''tweet''), (PROCESSED_ATTR, str ''true'')] []
             [postTextElement, postLink,
              Element (str ''DIV'') [(str ''class'', containerClass)] []
                [openBtn, createSearchButton (str ''Alpha'')],
              postActionBar])"
proof -
  have h1: "isElement postWithLinkAndName" by (simp add: example_post)
  have h2: "\<not> hasAttribute postWithLinkAndName PROCESSED_ATTR"
    by (simp add: example_post post_eval dom_eval)
  have h3: "querySelector isTweetText postWithLinkAndName = Some postTextElement"
    by (simp add: example_post post_eval dom_eval)
  have h4: "includesStr (asciiLower (getTextWithEmoji (Some postTextElement))) TARGET_HASHTAG"
    by (simp add: example_post post_eval dom_eval)
  have h5: "extractWorldName (getTextWithEmoji (Some postTextElement)) = Some (str ''Alpha'')"
    by (simp add: example_post post_eval dom_eval re_eval name_eval)
  have h6: "findWorldId (querySelectorAll isAnchor postWithLinkAndName)
       = Some (str ''wrld_12345678-1234-1234-1234-1234567890ab'')"
    by (simp add: example_post post_eval dom_eval re_eval id_eval)
  have h7: "querySelector (hasClass btnClass) postWithLinkAndName = None"
    by (simp add: example_post post_eval dom_eval)
  have h8: "showOpenBtn initialSettings" and h9: "showSearchBtn initialSettings"
    by (simp_all add: initialSettings_def)
  from link_precedence [where t = postWithLinkAndName and lc = asciiLower and e = postTextElement
      and name = "str ''Alpha''" and wid = "str ''wrld_12345678-1234-1234-1234-1234567890ab''"
      and st = initialSettings, OF h1 h2 h3 h4 h5 h6 h7 h8 h9]
  obtain openBtn where
    ob: "buildContainer initialSettings (Some (str ''Alpha''))
           (Some (str ''wrld_12345678-1234-1234-1234-1234567890ab'')) =
         Element (str ''DIV'') [(str ''class'', containerClass)] []
           [openBtn, createSearchButton (str ''Alpha'')]"
      "click openBtn = [OpenWorldPage (str ''wrld_12345678-1234-1234-1234-1234567890ab'')]"
      "click (createSearchButton (str ''Alpha'')) = [OpenSearchPage (str ''Alpha'')]"
      "processTweet asciiLower initialSettings postWithLinkAndName =
         (case insertBeforeFirst isActionBar
                 (buildContainer initialSettings (Some (str ''Alpha''))
                    (Some (str ''wrld_12345678-1234-1234-1234-1234567890ab'')))
                 (childNodes postWithLinkAndName) of
            Some ch' \<Rightarrow>
              Element (tagName postWithLinkAndName)
                (setAttr PROCESSED_ATTR (str ''true'') (attributes postWithLinkAndName))
                (listeners postWithLinkAndName) ch'
          | None \<Rightarrow> setAttribute postWithLinkAndName PROCESSED_ATTR (str ''true''))"
    by blast
  have ins: "insertBeforeFirst isActionBar
               (Element (str ''DIV'') [(str ''class'', containerClass)] []
                  [openBtn, createSearchButton (str ''Alpha'')])
               (childNodes postWithLinkAndName)
             = Some [postTextElement, postLink,
                     Element (str ''DIV'') [(str ''class'', containerClass)] []
                       [openBtn, createSearchButton (str ''Alpha'')],
                     postActionBar]"
    by (simp add: example_post isActionBar_def attrIs_def getAttribute_def str_def)
  have pt: "processTweet asciiLower initialSettings postWithLinkAndName =
           Element (str ''ARTICLE'')
             [(str ''data-testid'', str ''tweet''), (PROCESSED_ATTR, str ''true'')] []
             [postTextElement, postLink,
              Element (str ''DIV'') [(str ''class'', containerClass)] []
                [openBtn, createSearchButton (str ''Alpha'')],
              postActionBar]"
    unfolding ob(4) ob(1) ins
    by (simp add: postWithLinkAndName_def PROCESSED_ATTR_def str_def)
  from h1 h2 h3 h4 h5 h6 h7 h8 h9 ob(2) ob(3) pt show ?thesis by blast
qed


lemma reset_example:
  "removeAttributeAll PROCESSED_ATTR
     (removeMatching (hasClass containerClass)
        [processTweet asciiLower initialSettings postWithLinkAndName]) = [postWithLinkAndName]"
  by (simp add: example_post post_eval dom_eval re_eval name_eval id_eval)

lemma rescan_example:
  "processAllTweets asciiLower st [postWithLinkAndName] = [processTweet asciiLower st postWithLinkAndName]"
  by (simp add: processAllTweets_def forEachMatching_def nodesOf_def example_post isTweet_def
      attrIs_def getAttribute_def str_def)

text \<open>
  The settings update (C8) on a document that holds \<open>postWithLinkAndName\<close> after it was
  processed, with its marker and its Control Group. With the enabled flag \<open>false\<close> the
  handler gives the post back as it was before processing; with only the search control
  switched off it gives the post as processed under the new settings.
\<close>

theorem settings_update_resets_witness:
  "onMessage asciiLower
     (Some \<lparr>action = UPDATE_SETTINGS, msgSettings = Some [(EXTENSION_ENABLED, JBool False)]\<rparr>)
     (initialSettings, [processTweet asciiLower initialSettings postWithLinkAndName])
     = (\<lparr>isExtensionEnabled = False, showOpenBtn = True, showSearchBtn = True\<rparr>,
        [postWithLinkAndName])
   \<and> onMessage asciiLower
     (Some \<lparr>action = UPDATE_SETTINGS, msgSettings = Some [(SHOW_SEARCH_BTN, JBool False)]\<rparr>)
     (initialSettings, [processTweet asciiLower initialSettings postWithLinkAndName])
     = (\<lparr>isExtensionEnabled = True, showOpenBtn = True, showSearchBtn = False\<rparr>,
        [processTweet asciiLower
           \<lparr>isExtensionEnabled = True, showOpenBtn = True, showSearchBtn = False\<rparr>
           postWithLinkAndName])
   \<and> controlGroups (processTweet asciiLower initialSettings postWithLinkAndName) = 1
   \<and> hasAttribute (processTweet asciiLower initialSettings postWithLinkAndName) PROCESSED_ATTR"
proof -
  have r1: "readSettings [(EXTENSION_ENABLED, JBool False)]
      = \<lparr>isExtensionEnabled = False, showOpenBtn = True, showSearchBtn = True\<rparr>"
    by (simp add: readSettings_def getProp_def notFalse_def EXTENSION_ENABLED_def SHOW_OPEN_BTN_def
        SHOW_SEARCH_BTN_def str_def)
  have r2: "readSettings [(SHOW_SEARCH_BTN, JBool False)]
      = \<lparr>isExtensionEnabled = True, showOpenBtn = True, showSearchBtn = False\<rparr>"
    by (simp add: readSettings_def getProp_def notFalse_def EXTENSION_ENABLED_def SHOW_OPEN_BTN_def
        SHOW_SEARCH_BTN_def str_def)
  have g1: "getProp [(EXTENSION_ENABLED, JBool False)] EXTENSION_ENABLED = JBool False"
    by (simp add: getProp_def)
  have g2: "getProp [(SHOW_SEARCH_BTN, JBool False)] EXTENSION_ENABLED = JUndefined"
    by (simp add: getProp_def EXTENSION_ENABLED_def SHOW_SEARCH_BTN_def str_def)
  have c: "controlGroups (processTweet asciiLower initialSettings postWithLinkAndName) = 1"
    by (simp add: example_post post_eval dom_eval re_eval name_eval id_eval)
  have m: "hasAttribute (processTweet asciiLower initialSettings postWithLinkAndName) PROCESSED_ATTR"
    by (simp add: processTweet_marks example_post)
  from settings_update_resets [of asciiLower "[(EXTENSION_ENABLED, JBool False)]" initialSettings
      "[processTweet asciiLower initialSettings postWithLinkAndName]"]
    settings_update_resets [of asciiLower "[(SHOW_SEARCH_BTN, JBool False)]" initialSettings
      "[processTweet asciiLower initialSettings postWithLinkAndName]"]
    c m
  show ?thesis
    by (simp add: r1 r2 g1 g2 reset_example rescan_example)
qed

end
